theory Spec2Isabelle
  imports Complex_Main
begin

section \<open>The blob: data model\<close>

text \<open>
  A shallow embedding of the canvas blob demo (the \<^verbatim>\<open>window.onload\<close> script and the two
  functions of \<^verbatim>\<open>utils.js\<close> it calls). JavaScript numbers are modelled as real numbers:
  \<^verbatim>\<open>Math.cos\<close>, \<^verbatim>\<open>Math.sin\<close>, \<^verbatim>\<open>Math.sqrt\<close> and \<^verbatim>\<open>Math.PI\<close> are \<open>cos\<close>, \<open>sin\<close>, \<open>sqrt\<close>
  and \<open>pi\<close>, so every statement below is about exact arithmetic, not about rounding.

  The script shares objects: the anchor stored in \<^verbatim>\<open>points[i]\<close> is also element 0 of
  \<^verbatim>\<open>curves[i]\<close> and element 3 of the curve before it, and every control point (a "midpoint"
  in the script) is held both by its curve and by the \<^verbatim>\<open>midPointConnections\<close> of one anchor.
  The model therefore keeps the objects in two stores and passes references: an anchor is
  referred to by its index in \<^verbatim>\<open>points\<close> (the array that holds the anchor objects), a
  control point by its address in the store \<open>mids\<close>, the address being the number of control
  points allocated before it.
\<close>

type_synonym ref = nat

text \<open>
  An anchor object. The script creates it with \<^verbatim>\<open>x\<close> and \<^verbatim>\<open>y\<close> only and adds the other three
  properties in the pairing loop; until then \<^verbatim>\<open>midPointConnections\<close> is undefined (\<open>None\<close>)
  and the direction and speed are never read (\<^verbatim>\<open>if (!midPoints) continue\<close>).
  \<^verbatim>\<open>midPointConnections\<close> is an array filled by exactly two pushes: a pair.
  The fields \<^verbatim>\<open>x\<close> and \<^verbatim>\<open>y\<close> are named \<open>pt_x\<close>, \<open>pt_y\<close> (anchors) and \<open>mp_x\<close>, \<open>mp_y\<close>
  (control points).
\<close>

record point =
  pt_x :: real
  pt_y :: real
  midPointConnections :: "(ref \<times> ref) option"
  midPointMovementDirection :: real
  midPointMovementSpeed :: real

record midPoint =
  mp_x :: real
  mp_y :: real
  baseAngle :: real
  currentAngle :: real

text \<open>
  A curve is the array \<^verbatim>\<open>[points[i], {first midpoint}, {second midpoint}, points[nextI]]\<close>:
  \<open>c0\<close> and \<open>c3\<close> refer to anchors, \<open>c1\<close> and \<open>c2\<close> to control points.
\<close>

record curve =
  c0 :: ref
  c1 :: ref
  c2 :: ref
  c3 :: ref

text \<open>
  The constants the script fixes before it builds the shape. \<open>width\<close> and \<open>height\<close> are
  \<^verbatim>\<open>window.innerWidth\<close> and \<^verbatim>\<open>window.innerHeight\<close> at load time.
\<close>

record config =
  TOTAL_POINTS :: nat
  MAX_MIDPOINT_ROTATION :: real
  baseRadius :: real
  width :: real
  height :: real

text \<open>The values the script itself uses, in a window of 1000 by 800 pixels.\<close>

definition source_config :: config where
  "source_config =
     \<lparr>TOTAL_POINTS = 5, MAX_MIDPOINT_ROTATION = pi / 6, baseRadius = 250,
      width = 1000, height = 800\<rparr>"

text \<open>
  The mutable variables of the script. \<open>randomCalls\<close> counts the calls of \<^verbatim>\<open>Math.random\<close>
  made so far; \<open>dragListeners\<close> says whether the \<^verbatim>\<open>mousemove\<close> and \<^verbatim>\<open>mouseup\<close> listeners are
  registered (the script adds and removes the two together).
\<close>

record state =
  points :: "point list"
  mids :: "midPoint list"
  curves :: "curve list"
  draggingPoint :: "ref option"
  dragListeners :: bool
  isAnimating :: bool
  canRotate :: bool
  drawCircles :: bool
  fillCircle :: bool
  drawMidPointConnections :: bool
  rotation :: real
  rotationDirection :: real
  randomCalls :: nat

text \<open>The only failure the script can run into: reading a property of \<^verbatim>\<open>undefined\<close> or \<^verbatim>\<open>null\<close>.\<close>

datatype error = TypeError

text \<open>
  \<^verbatim>\<open>Math.random()\<close>: the sequence of numbers it returns is a parameter \<open>rnd\<close> of the model,
  the \<open>n\<close>-th call returning \<open>rnd n\<close>.
\<close>

definition random :: "(nat \<Rightarrow> real) \<Rightarrow> state \<Rightarrow> real \<times> state" where
  "random rnd s = (rnd (randomCalls s), s\<lparr>randomCalls := Suc (randomCalls s)\<rparr>)"

section \<open>Building the shape\<close>

text \<open>
  \<^verbatim>\<open>var k = 4 * ((Math.sqrt(2) - 1) / 3); k /= (TOTAL_POINTS / 4);\<close>
  The script's \<^verbatim>\<open>k\<close> is named \<open>kappa\<close> here. For the point count 0 the script divides by
  zero and gets \<^verbatim>\<open>Infinity\<close>, where the division of the reals gives 0; the constants \<open>kappa\<close>
  and \<open>curveIncrement\<close> are then never used, since no loop runs a single round.
\<close>

definition kappa :: "config \<Rightarrow> real" where
  "kappa cfg = (4 * ((sqrt 2 - 1) / 3)) / (real (TOTAL_POINTS cfg) / 4)"

definition curveStartAngle :: real where
  "curveStartAngle = - pi / 2"

definition curveIncrement :: "config \<Rightarrow> real" where
  "curveIncrement cfg = pi * 2 / real (TOTAL_POINTS cfg)"

definition getMidPointComponent :: "real \<Rightarrow> (real \<Rightarrow> real) \<Rightarrow> real \<Rightarrow> real \<Rightarrow> real" where
  "getMidPointComponent parentComponent trigFn angle distance =
     parentComponent + trigFn angle * distance"

definition init_state :: state where
  "init_state =
     \<lparr>points = [], mids = [], curves = [], draggingPoint = None, dragListeners = False,
      isAnimating = False, canRotate = False, drawCircles = True, fillCircle = False,
      drawMidPointConnections = True, rotation = 0, rotationDirection = 1,
      randomCalls = 0\<rparr>"

text \<open>
  First loop, body for index \<open>i\<close>: push the anchor at angle
  \<^verbatim>\<open>curveStartAngle + (curveIncrement * i)\<close>.
\<close>

definition new_point :: "config \<Rightarrow> nat \<Rightarrow> point" where
  "new_point cfg i =
     (let currentAngle' = curveStartAngle + curveIncrement cfg * real i
      in \<lparr>pt_x = cos currentAngle' * baseRadius cfg,
          pt_y = sin currentAngle' * baseRadius cfg,
          midPointConnections = None,
          midPointMovementDirection = 0,
          midPointMovementSpeed = 0\<rparr>)"

definition push_point :: "config \<Rightarrow> nat \<Rightarrow> state \<Rightarrow> state" where
  "push_point cfg i s = s\<lparr>points := points s @ [new_point cfg i]\<rparr>"

definition create_points :: "config \<Rightarrow> state \<Rightarrow> state" where
  "create_points cfg s = fold (push_point cfg) [0..<TOTAL_POINTS cfg] s"

text \<open>
  The object literal of a control point: its position is taken from the anchor \<open>parent\<close>
  and the angle, and the angle is stored as both \<^verbatim>\<open>baseAngle\<close> and \<^verbatim>\<open>currentAngle\<close>.
\<close>

definition new_midPoint :: "config \<Rightarrow> point \<Rightarrow> real \<Rightarrow> midPoint" where
  "new_midPoint cfg parent angle =
     \<lparr>mp_x = getMidPointComponent (pt_x parent) cos angle (baseRadius cfg * kappa cfg),
      mp_y = getMidPointComponent (pt_y parent) sin angle (baseRadius cfg * kappa cfg),
      baseAngle = angle,
      currentAngle = angle\<rparr>"

text \<open>
  Second loop, body for index \<open>i\<close>: allocate the two control points of curve \<open>i\<close> and push
  the curve. The first control point sits at angle \<^verbatim>\<open>i * curveIncrement\<close> from anchor \<open>i\<close>,
  the second at \<^verbatim>\<open>nextI * curveIncrement - Math.PI\<close> from anchor \<open>nextI\<close>.
\<close>

definition push_curve :: "config \<Rightarrow> nat \<Rightarrow> state \<Rightarrow> state" where
  "push_curve cfg i s =
     (let nextI = (if i + 1 < length (points s) then i + 1 else 0);
          currentIncrement = real i * curveIncrement cfg;
          nextIncrement = real nextI * curveIncrement cfg;
          firstMidPointAngle = currentIncrement;
          secondMidPointAngle = nextIncrement - pi
      in s\<lparr>mids := mids s @
              [new_midPoint cfg (points s ! i) firstMidPointAngle,
               new_midPoint cfg (points s ! nextI) secondMidPointAngle],
            curves := curves s @
              [\<lparr>c0 = i, c1 = length (mids s), c2 = Suc (length (mids s)), c3 = nextI\<rparr>]\<rparr>)"

definition create_curves :: "config \<Rightarrow> state \<Rightarrow> state" where
  "create_curves cfg s = fold (push_curve cfg) [0..<length (points s)] s"

text \<open>
  Third loop, body for index \<open>i\<close>: store on anchor \<open>i\<close> the second control point of the
  curve before it and the first control point of its own curve, the direction 1 and a
  random speed.
\<close>

definition connect_point :: "(nat \<Rightarrow> real) \<Rightarrow> nat \<Rightarrow> state \<Rightarrow> state" where
  "connect_point rnd i s =
     (let prevCurveIndex = (if i = 0 then length (points s) - 1 else i - 1);
          nextCurveIndex = i;
          (r, s') = random rnd s
      in s'\<lparr>points := (points s')[i := (points s' ! i)
            \<lparr>midPointConnections :=
                Some (c2 (curves s' ! prevCurveIndex), c1 (curves s' ! nextCurveIndex)),
              midPointMovementDirection := 1,
              midPointMovementSpeed := r\<rparr>]\<rparr>)"

definition connect_points :: "(nat \<Rightarrow> real) \<Rightarrow> state \<Rightarrow> state" where
  "connect_points rnd s = fold (connect_point rnd) [0..<length (points s)] s"

definition build :: "config \<Rightarrow> (nat \<Rightarrow> real) \<Rightarrow> state" where
  "build cfg rnd = connect_points rnd (create_curves cfg (create_points cfg init_state))"

section \<open>The oscillation tick\<close>

text \<open>A write to one control point object: \<open>f\<close> applied to the object at address \<open>m\<close>.\<close>

definition upd_mid :: "ref \<Rightarrow> (midPoint \<Rightarrow> midPoint) \<Rightarrow> state \<Rightarrow> state" where
  "upd_mid m f s = s\<lparr>mids := (mids s)[m := f (mids s ! m)]\<rparr>"

text \<open>
  The two assignments of either branch of the reversal test:
  \<^verbatim>\<open>point.midPointMovementDirection = d; point.midPointMovementSpeed = Math.random();\<close>
\<close>

definition set_movement :: "(nat \<Rightarrow> real) \<Rightarrow> nat \<Rightarrow> real \<Rightarrow> state \<Rightarrow> state" where
  "set_movement rnd i d s =
     (let (r, s') = random rnd s
      in s'\<lparr>points := (points s')[i := (points s' ! i)
            \<lparr>midPointMovementDirection := d, midPointMovementSpeed := r\<rparr>]\<rparr>)"

text \<open>
  The body of the loop of \<^verbatim>\<open>updateMidPoints\<close> for anchor \<open>i\<close> with the paired control
  points \<open>m0\<close> and \<open>m1\<close>, in the three parts the script's comments name.

  "update angle": both angles move by speed times 0.02 times direction.
\<close>

definition update_angle :: "nat \<Rightarrow> ref \<Rightarrow> ref \<Rightarrow> state \<Rightarrow> state" where
  "update_angle i m0 m1 s =
     (let point = points s ! i;
          delta = midPointMovementSpeed point * 0.02 * midPointMovementDirection point;
          s1 = upd_mid m0 (\<lambda>m. m\<lparr>currentAngle := currentAngle m + delta\<rparr>) s;
          s2 = upd_mid m1 (\<lambda>m. m\<lparr>currentAngle := currentAngle m + delta\<rparr>) s1
      in s2)"

text \<open>"reverse midPoint movement direction if it's gone past maximum".\<close>

definition reverse_direction ::
    "config \<Rightarrow> (nat \<Rightarrow> real) \<Rightarrow> nat \<Rightarrow> ref \<Rightarrow> ref \<Rightarrow> state \<Rightarrow> state" where
  "reverse_direction cfg rnd i m0 m1 s =
     (if currentAngle (mids s ! m0) \<ge> baseAngle (mids s ! m0) + MAX_MIDPOINT_ROTATION cfg
         \<or> currentAngle (mids s ! m1) \<ge> baseAngle (mids s ! m1) + MAX_MIDPOINT_ROTATION cfg
      then set_movement rnd i (- 1) s
      else if currentAngle (mids s ! m0) \<le> baseAngle (mids s ! m0) - MAX_MIDPOINT_ROTATION cfg
         \<or> currentAngle (mids s ! m1) \<le> baseAngle (mids s ! m1) - MAX_MIDPOINT_ROTATION cfg
      then set_movement rnd i 1 s
      else s)"

text \<open>"update coordinates": the four assignments, in the script's order.\<close>

definition update_coordinates :: "config \<Rightarrow> nat \<Rightarrow> ref \<Rightarrow> ref \<Rightarrow> state \<Rightarrow> state" where
  "update_coordinates cfg i m0 m1 s =
     (let point = points s ! i;
          s1 = upd_mid m0 (\<lambda>m. m\<lparr>mp_x := getMidPointComponent (pt_x point) cos
                 (currentAngle m) (baseRadius cfg * kappa cfg)\<rparr>) s;
          s2 = upd_mid m0 (\<lambda>m. m\<lparr>mp_y := getMidPointComponent (pt_y point) sin
                 (currentAngle m) (baseRadius cfg * kappa cfg)\<rparr>) s1;
          s3 = upd_mid m1 (\<lambda>m. m\<lparr>mp_x := getMidPointComponent (pt_x point) cos
                 (currentAngle m) (baseRadius cfg * kappa cfg)\<rparr>) s2;
          s4 = upd_mid m1 (\<lambda>m. m\<lparr>mp_y := getMidPointComponent (pt_y point) sin
                 (currentAngle m) (baseRadius cfg * kappa cfg)\<rparr>) s3
      in s4)"

text \<open>
  The whole body: an anchor without \<^verbatim>\<open>midPointConnections\<close> is skipped
  (\<^verbatim>\<open>if (!midPoints) continue\<close>).
\<close>

definition updateMidPoint :: "config \<Rightarrow> (nat \<Rightarrow> real) \<Rightarrow> nat \<Rightarrow> state \<Rightarrow> state" where
  "updateMidPoint cfg rnd i s =
     (case midPointConnections (points s ! i) of
        None \<Rightarrow> s
      | Some (m0, m1) \<Rightarrow>
          update_coordinates cfg i m0 m1
            (reverse_direction cfg rnd i m0 m1 (update_angle i m0 m1 s)))"

definition updateMidPoints :: "config \<Rightarrow> (nat \<Rightarrow> real) \<Rightarrow> state \<Rightarrow> state" where
  "updateMidPoints cfg rnd s = fold (updateMidPoint cfg rnd) [0..<length (points s)] s"

section \<open>Pointer and keyboard handlers\<close>

record circle =
  circ_x :: real
  circ_y :: real
  radius :: real

text \<open>\<^verbatim>\<open>utils.distance\<close> and \<^verbatim>\<open>utils.circlePointCollision\<close>.\<close>

definition distance :: "real \<Rightarrow> real \<Rightarrow> real \<Rightarrow> real \<Rightarrow> real" where
  "distance x0 y0 x1 y1 = (let dx = x1 - x0; dy = y1 - y0 in sqrt (dx * dx + dy * dy))"

definition circlePointCollision :: "real \<Rightarrow> real \<Rightarrow> circle \<Rightarrow> bool" where
  "circlePointCollision x y circ = (distance (circ_x circ) (circ_y circ) x y \<le> radius circ)"

record mouse_event =
  clientX :: real
  clientY :: real

text \<open>
  The two loops of \<^verbatim>\<open>mousedown\<close>. The inner loop runs over the slots 1 and 2 of one curve,
  the outer loop over the curves; both stop at the first control point that is hit,
  which is what the script's \<^verbatim>\<open>return\<close> does.
\<close>

fun scan_slots :: "real \<Rightarrow> real \<Rightarrow> midPoint list \<Rightarrow> ref list \<Rightarrow> ref option" where
  "scan_slots x y ms [] = None"
| "scan_slots x y ms (m # rest) =
     (if circlePointCollision x y \<lparr>circ_x = mp_x (ms ! m), circ_y = mp_y (ms ! m), radius = 10\<rparr>
      then Some m
      else scan_slots x y ms rest)"

fun scan_curves :: "real \<Rightarrow> real \<Rightarrow> midPoint list \<Rightarrow> curve list \<Rightarrow> ref option" where
  "scan_curves x y ms [] = None"
| "scan_curves x y ms (c # cs) =
     (case scan_slots x y ms [c1 c, c2 c] of
        Some m \<Rightarrow> Some m
      | None \<Rightarrow> scan_curves x y ms cs)"

definition mousedown :: "config \<Rightarrow> mouse_event \<Rightarrow> state \<Rightarrow> state" where
  "mousedown cfg e s =
     (let x = clientX e - width cfg / 2;
          y = clientY e - height cfg / 2
      in case scan_curves x y (mids s) (curves s) of
           Some m \<Rightarrow> s\<lparr>draggingPoint := Some m, dragListeners := True\<rparr>
         | None \<Rightarrow> s)"

text \<open>
  \<^verbatim>\<open>mousemove\<close> writes through \<^verbatim>\<open>draggingPoint\<close>; on \<^verbatim>\<open>null\<close> the assignment
  \<^verbatim>\<open>draggingPoint.x = x\<close> throws.
\<close>

definition mousemove :: "config \<Rightarrow> mouse_event \<Rightarrow> state \<Rightarrow> error + state" where
  "mousemove cfg e s =
     (case draggingPoint s of
        None \<Rightarrow> Inl TypeError
      | Some d \<Rightarrow>
          (let x = clientX e - width cfg / 2;
               s1 = upd_mid d (\<lambda>m. m\<lparr>mp_x := x\<rparr>) s;
               y = clientY e - height cfg / 2;
               s2 = upd_mid d (\<lambda>m. m\<lparr>mp_y := y\<rparr>) s1
           in Inr s2))"

definition mouseup :: "state \<Rightarrow> state" where
  "mouseup s = s\<lparr>draggingPoint := None, dragListeners := False\<rparr>"

text \<open>
  \<^verbatim>\<open>keydown\<close>, by key code. (The script also defines \<^verbatim>\<open>keyup\<close>, but never registers it.)
\<close>

definition keydown :: "nat \<Rightarrow> state \<Rightarrow> state" where
  "keydown keyCode s =
     (if keyCode = 32
      then s\<lparr>drawCircles := \<not> drawCircles s,
             drawMidPointConnections := \<not> drawMidPointConnections s\<rparr>
      else if keyCode = 65 then s\<lparr>isAnimating := \<not> isAnimating s\<rparr>
      else if keyCode = 70 then s\<lparr>fillCircle := \<not> fillCircle s\<rparr>
      else if keyCode = 82 then s\<lparr>canRotate := \<not> canRotate s\<rparr>
      else s)"

section \<open>Frames and the event loop\<close>

text \<open>
  The "rotate context" part of \<^verbatim>\<open>render\<close>: when rotation is on, the angle advances and,
  with a random number above 0.999, the direction of rotation is reversed.
\<close>

definition rotate_step :: "(nat \<Rightarrow> real) \<Rightarrow> state \<Rightarrow> state" where
  "rotate_step rnd s =
     (if canRotate s
      then (let s' = s\<lparr>rotation := rotation s + 0.0025 * rotationDirection s\<rparr>;
                (r, s'') = random rnd s'
            in if r > 0.999
               then s''\<lparr>rotationDirection := rotationDirection s'' * (- 1)\<rparr>
               else s'')
      else s)"

text \<open>
  \<^verbatim>\<open>render\<close>, without the drawing calls (they only read the shape): the rotation step, the
  oscillation tick when animation is on, and then \<^verbatim>\<open>curves[0][0].x\<close>, which throws when
  there is no curve.
\<close>

definition render :: "config \<Rightarrow> (nat \<Rightarrow> real) \<Rightarrow> state \<Rightarrow> error + state" where
  "render cfg rnd s =
     (let s1 = rotate_step rnd s;
          s2 = (if isAnimating s1 then updateMidPoints cfg rnd s1 else s1)
      in if curves s2 = [] then Inl TypeError else Inr s2)"

text \<open>
  \<^verbatim>\<open>window.onload\<close>: build the shape, register \<^verbatim>\<open>mousedown\<close> and \<^verbatim>\<open>keydown\<close> (they stay
  registered for good) and render the first frame.
\<close>

definition window_onload :: "config \<Rightarrow> (nat \<Rightarrow> real) \<Rightarrow> error + state" where
  "window_onload cfg rnd = render cfg rnd (build cfg rnd)"

text \<open>
  What the browser delivers afterwards: animation frames, pointer events and key presses.
  A \<^verbatim>\<open>mousemove\<close> or \<^verbatim>\<open>mouseup\<close> reaches its handler only while the listener is registered.
\<close>

datatype event =
  Frame
| MouseDown mouse_event
| MouseMove mouse_event
| MouseUp
| KeyDown nat

definition step :: "config \<Rightarrow> (nat \<Rightarrow> real) \<Rightarrow> event \<Rightarrow> state \<Rightarrow> error + state" where
  "step cfg rnd ev s =
     (case ev of
        Frame \<Rightarrow> render cfg rnd s
      | MouseDown e \<Rightarrow> Inr (mousedown cfg e s)
      | MouseMove e \<Rightarrow> (if dragListeners s then mousemove cfg e s else Inr s)
      | MouseUp \<Rightarrow> Inr (if dragListeners s then mouseup s else s)
      | KeyDown keyCode \<Rightarrow> Inr (keydown keyCode s))"

text \<open>A run stops at the first handler that throws.\<close>

fun run :: "config \<Rightarrow> (nat \<Rightarrow> real) \<Rightarrow> event list \<Rightarrow> state \<Rightarrow> error + state" where
  "run cfg rnd [] s = Inr s"
| "run cfg rnd (ev # evs) s =
     (case step cfg rnd ev s of
        Inl err \<Rightarrow> Inl err
      | Inr s' \<Rightarrow> run cfg rnd evs s')"

definition session :: "config \<Rightarrow> (nat \<Rightarrow> real) \<Rightarrow> event list \<Rightarrow> error + state" where
  "session cfg rnd evs =
     (case window_onload cfg rnd of
        Inl err \<Rightarrow> Inl err
      | Inr s \<Rightarrow> run cfg rnd evs s)"

section \<open>Notions used in the statements\<close>

text \<open>
  The derivation formula of a control point \<open>m\<close> owned by the anchor \<open>p\<close>: its position is
  the anchor's position plus \<open>R * k * (cos a, sin a)\<close>, where \<open>a\<close> is its current angle,
  \<open>R\<close> the base radius and \<open>k\<close> the roundness constant.
\<close>

definition derived_from :: "config \<Rightarrow> point \<Rightarrow> midPoint \<Rightarrow> bool" where
  "derived_from cfg p m \<longleftrightarrow>
     mp_x m = pt_x p + baseRadius cfg * kappa cfg * cos (currentAngle m) \<and>
     mp_y m = pt_y p + baseRadius cfg * kappa cfg * sin (currentAngle m)"

text \<open>
  Every control point of every curve matches the formula: the first control point is owned
  by the curve's start anchor, the second by its end anchor.
\<close>

definition control_points_derived :: "config \<Rightarrow> state \<Rightarrow> bool" where
  "control_points_derived cfg s \<longleftrightarrow>
     (\<forall>c \<in> set (curves s).
        derived_from cfg (points s ! c0 c) (mids s ! c1 c) \<and>
        derived_from cfg (points s ! c3 c) (mids s ! c2 c))"

text \<open>A \<^verbatim>\<open>Math.random\<close> that returns the same number \<open>c\<close> at every call.\<close>

definition steady :: "real \<Rightarrow> nat \<Rightarrow> real" where
  "steady c n = c"

text \<open>
  A drag in the script's own window: the pointer goes down on the first control point of
  curve 0, which the built shape has at \<open>(250 * k, - 250)\<close> from the centre, moves to the
  centre of the window and is released.
\<close>

definition drag_and_release :: "event list" where
  "drag_and_release =
     [MouseDown \<lparr>clientX = 250 * kappa source_config + 500, clientY = 150\<rparr>,
      MouseMove \<lparr>clientX = 500, clientY = 400\<rparr>,
      MouseUp]"

text \<open>
  The hit test in the specification's words: the first control point, scanning the curves
  in order and in each curve slot 1 before slot 2, whose Euclidean distance to the point
  \<open>(x, y)\<close> is at most 10.
\<close>

definition hit_test :: "real \<Rightarrow> real \<Rightarrow> state \<Rightarrow> ref option" where
  "hit_test x y s =
     find (\<lambda>m. sqrt ((mp_x (mids s ! m) - x)\<^sup>2 + (mp_y (mids s ! m) - y)\<^sup>2) \<le> 10)
       (concat (map (\<lambda>c. [c1 c, c2 c]) (curves s)))"

text \<open>A configuration with two points and a negative radius.\<close>

definition unchecked_config :: config where
  "unchecked_config =
     \<lparr>TOTAL_POINTS = 2, MAX_MIDPOINT_ROTATION = pi / 6, baseRadius = - 1,
      width = 1000, height = 800\<rparr>"

text \<open>The script's own shape after the pointer went down on the first control point of curve 0.\<close>

definition grabbed_shape :: state where
  "grabbed_shape =
     mousedown source_config \<lparr>clientX = 250 * kappa source_config + 500, clientY = 150\<rparr>
       (build source_config (steady 0))"

text \<open>
  The script's own shape after \<open>n\<close> oscillation ticks, when every call of \<^verbatim>\<open>Math.random\<close>
  returns \<open>pi / 4\<close>.
\<close>

definition quarter_pi_run :: "nat \<Rightarrow> state" where
  "quarter_pi_run n =
     (updateMidPoints source_config (steady (pi / 4)) ^^ n)
       (build source_config (steady (pi / 4)))"

section \<open>Invariants used in the proofs\<close>

text \<open>The index after and before \<open>i\<close> on a ring of \<open>n\<close> anchors, as the script computes them.\<close>

definition next_index :: "nat \<Rightarrow> nat \<Rightarrow> nat" where
  "next_index n i = (if i + 1 < n then i + 1 else 0)"

definition prev_index :: "nat \<Rightarrow> nat \<Rightarrow> nat" where
  "prev_index n i = (if i = 0 then n - 1 else i - 1)"

text \<open>Anchor \<open>i\<close> of \<open>s\<close> after the pairing loop has reached it.\<close>

definition connected_point :: "(nat \<Rightarrow> real) \<Rightarrow> state \<Rightarrow> nat \<Rightarrow> point" where
  "connected_point rnd s i =
     (points s ! i)\<lparr>midPointConnections :=
         Some (c2 (curves s ! prev_index (length (points s)) i), c1 (curves s ! i)),
       midPointMovementDirection := 1,
       midPointMovementSpeed := rnd (randomCalls s + i)\<rparr>"

text \<open>
  The references of a built shape: curve \<open>i\<close> runs from anchor \<open>i\<close> to the next anchor
  through the control points at the addresses \<open>2 * i\<close> and \<open>2 * i + 1\<close>, and anchor \<open>i\<close> is
  paired with the second control point of the curve before it and the first of its own.
  No handler changes any of this.
\<close>

definition shape :: "config \<Rightarrow> state \<Rightarrow> bool" where
  "shape cfg s \<longleftrightarrow>
     length (points s) = TOTAL_POINTS cfg \<and>
     length (mids s) = 2 * TOTAL_POINTS cfg \<and>
     length (curves s) = TOTAL_POINTS cfg \<and>
     (\<forall>i<TOTAL_POINTS cfg.
        curves s ! i =
          \<lparr>c0 = i, c1 = 2 * i, c2 = Suc (2 * i), c3 = next_index (TOTAL_POINTS cfg) i\<rparr> \<and>
        midPointConnections (points s ! i) =
          Some (Suc (2 * prev_index (TOTAL_POINTS cfg) i), 2 * i))"

text \<open>The two control points paired with anchor \<open>i\<close> match the derivation formula.\<close>

definition anchor_derived :: "config \<Rightarrow> state \<Rightarrow> nat \<Rightarrow> bool" where
  "anchor_derived cfg s i \<longleftrightarrow>
     derived_from cfg (points s ! i) (mids s ! Suc (2 * prev_index (TOTAL_POINTS cfg) i)) \<and>
     derived_from cfg (points s ! i) (mids s ! (2 * i))"

text \<open>
  What holds between two events: the shape's references, and the drag listeners
  registered exactly while a control point is captured.
\<close>

definition ready :: "config \<Rightarrow> state \<Rightarrow> bool" where
  "ready cfg s \<longleftrightarrow> shape cfg s \<and> (dragListeners s \<longleftrightarrow> draggingPoint s \<noteq> None)"

text \<open>
  The part of the state that one anchor's oscillation reads and writes: the current and
  base angles of its two paired control points, and its own direction and speed.
\<close>

record sweep =
  angle0 :: real
  angle1 :: real
  base0 :: real
  base1 :: real
  direction :: real
  speed :: real

definition sweep_of :: "config \<Rightarrow> state \<Rightarrow> nat \<Rightarrow> sweep" where
  "sweep_of cfg s i =
     \<lparr>angle0 = currentAngle (mids s ! Suc (2 * prev_index (TOTAL_POINTS cfg) i)),
      angle1 = currentAngle (mids s ! (2 * i)),
      base0 = baseAngle (mids s ! Suc (2 * prev_index (TOTAL_POINTS cfg) i)),
      base1 = baseAngle (mids s ! (2 * i)),
      direction = midPointMovementDirection (points s ! i),
      speed = midPointMovementSpeed (points s ! i)\<rparr>"

text \<open>One round of the tick on that part: the angles move, then the direction may turn.\<close>

definition sweep_move :: "sweep \<Rightarrow> sweep" where
  "sweep_move w =
     w\<lparr>angle0 := angle0 w + speed w * 0.02 * direction w,
       angle1 := angle1 w + speed w * 0.02 * direction w\<rparr>"

definition sweep_turn :: "real \<Rightarrow> real \<Rightarrow> sweep \<Rightarrow> sweep" where
  "sweep_turn limit r w =
     (if angle0 w \<ge> base0 w + limit \<or> angle1 w \<ge> base1 w + limit
      then w\<lparr>direction := - 1, speed := r\<rparr>
      else if angle0 w \<le> base0 w - limit \<or> angle1 w \<le> base1 w - limit
      then w\<lparr>direction := 1, speed := r\<rparr>
      else w)"

definition sweep_step :: "real \<Rightarrow> real \<Rightarrow> sweep \<Rightarrow> sweep" where
  "sweep_step limit r w = sweep_turn limit r (sweep_move w)"

text \<open>
  The oscillation's invariant: the two control points are equally far from their base
  angles, the direction is 1 or - 1, the speed lies in \<open>[0, 1)\<close>, the angle is below the
  upper bound while the direction is forward and above the lower bound while it is
  backward, and never further than one step of 0.02 beyond either.
\<close>

definition sweep_ok :: "real \<Rightarrow> sweep \<Rightarrow> bool" where
  "sweep_ok limit w \<longleftrightarrow>
     angle0 w - base0 w = angle1 w - base1 w \<and>
     (direction w = 1 \<or> direction w = - 1) \<and>
     0 \<le> speed w \<and> speed w < 1 \<and>
     (direction w = 1 \<longrightarrow> angle1 w < base1 w + limit) \<and>
     (direction w = - 1 \<longrightarrow> base1 w - limit < angle1 w) \<and>
     base1 w - limit - 0.02 < angle1 w \<and> angle1 w < base1 w + limit + 0.02"

text \<open>
  The sweep of anchor 0 of the script's own shape under the random number \<open>pi / 4\<close>, in
  steps of \<open>pi / 200\<close>: \<open>n\<close> steps up from the base angle, and \<open>k\<close> steps down from 34 steps
  above it.
\<close>

definition up_sweep :: "nat \<Rightarrow> sweep" where
  "up_sweep n =
     \<lparr>angle0 = - pi + real n * (pi / 200), angle1 = real n * (pi / 200),
      base0 = - pi, base1 = 0, direction = 1, speed = pi / 4\<rparr>"

definition down_sweep :: "nat \<Rightarrow> sweep" where
  "down_sweep k =
     \<lparr>angle0 = - pi + (34 - real k) * (pi / 200), angle1 = (34 - real k) * (pi / 200),
      base0 = - pi, base1 = 0, direction = - 1, speed = pi / 4\<rparr>"

text \<open>
  A state without the three components an oscillation tick may write: the anchors, the
  control points and the count of random numbers drawn.
\<close>

definition rest :: "state \<Rightarrow> state" where
  "rest s = s\<lparr>points := [], mids := [], randomCalls := 0\<rparr>"

section \<open>Loops\<close>

text \<open>A loop over \<open>0, ..., n - 1\<close> keeps an invariant indexed by the number of rounds done.\<close>

lemma fold_upt_invariant:
  assumes "P 0 s" and "\<And>i t. i < n \<Longrightarrow> P i t \<Longrightarrow> P (Suc i) (f i t)"
  shows "P n (fold f [0..<n] s)"
  using assms
proof (induction n)
  case 0
  then show ?case by simp
next
  case (Suc n)
  have "P n (fold f [0..<n] s)"
    using Suc.IH Suc.prems by simp
  then show ?case
    using Suc.prems(2) [of n] by simp
qed

lemma fold_invariant:
  assumes "P s" and "\<And>x t. x \<in> set xs \<Longrightarrow> P t \<Longrightarrow> P (f x t)"
  shows "P (fold f xs s)"
  using assms by (induction xs arbitrary: s) simp_all

section \<open>The built shape in closed form\<close>

lemma create_points_loop:
  "fold (push_point cfg) [0..<n] s = s\<lparr>points := points s @ map (new_point cfg) [0..<n]\<rparr>"
  by (induction n) (simp_all add: push_point_def)

lemma create_points_init:
  "create_points cfg init_state = init_state\<lparr>points := map (new_point cfg) [0..<TOTAL_POINTS cfg]\<rparr>"
  by (simp add: create_points_def create_points_loop init_state_def)

lemma length_pairs: "length (concat (map (\<lambda>i. [f i, g i]) [0..<n])) = 2 * n"
  by (induction n) simp_all

lemma nth_pairs_even: "j < n \<Longrightarrow> concat (map (\<lambda>i. [f i, g i]) [0..<n]) ! (2 * j) = f j"
  by (induction n) (auto simp add: nth_append length_pairs less_Suc_eq)

lemma nth_pairs_odd: "j < n \<Longrightarrow> concat (map (\<lambda>i. [f i, g i]) [0..<n]) ! Suc (2 * j) = g j"
  by (induction n) (auto simp add: nth_append length_pairs less_Suc_eq)

lemma create_curves_loop:
  "fold (push_curve cfg) [0..<n] s =
     s\<lparr>mids := mids s @ concat (map (\<lambda>i.
            [new_midPoint cfg (points s ! i) (real i * curveIncrement cfg),
             new_midPoint cfg (points s ! next_index (length (points s)) i)
               (real (next_index (length (points s)) i) * curveIncrement cfg - pi)]) [0..<n]),
        curves := curves s @ map (\<lambda>i.
            \<lparr>c0 = i, c1 = length (mids s) + 2 * i, c2 = Suc (length (mids s) + 2 * i),
             c3 = next_index (length (points s)) i\<rparr>) [0..<n]\<rparr>"
  by (induction n) (simp_all add: push_curve_def length_pairs next_index_def)

lemma connect_points_loop:
  "n \<le> length (points s) \<Longrightarrow>
   fold (connect_point rnd) [0..<n] s =
     s\<lparr>points := map (connected_point rnd s) [0..<n] @ drop n (points s),
        randomCalls := randomCalls s + n\<rparr>"
proof (induction n)
  case 0
  then show ?case by simp
next
  case (Suc n)
  then have n: "n < length (points s)" and le: "n \<le> length (points s)" by simp_all
  have split: "drop n (points s) = points s ! n # drop (Suc n) (points s)"
    using n by (simp add: Cons_nth_drop_Suc)
  have "fold (connect_point rnd) [0..<Suc n] s
      = connect_point rnd n (fold (connect_point rnd) [0..<n] s)"
    by simp
  also have "\<dots> = connect_point rnd n
      (s\<lparr>points := map (connected_point rnd s) [0..<n] @ drop n (points s),
         randomCalls := randomCalls s + n\<rparr>)"
    using Suc.IH [OF le] by simp
  also have "\<dots> = s\<lparr>points := map (connected_point rnd s) [0..<Suc n] @ drop (Suc n) (points s),
        randomCalls := randomCalls s + Suc n\<rparr>"
    using n
    by (simp add: connect_point_def random_def Let_def list_update_append nth_append split
        connected_point_def prev_index_def)
  finally show ?case .
qed

lemma create_curves_points:
  "create_curves cfg (create_points cfg init_state) =
     init_state\<lparr>points := map (new_point cfg) [0..<TOTAL_POINTS cfg],
       mids := concat (map (\<lambda>i.
            [new_midPoint cfg (new_point cfg i) (real i * curveIncrement cfg),
             new_midPoint cfg (new_point cfg (next_index (TOTAL_POINTS cfg) i))
               (real (next_index (TOTAL_POINTS cfg) i) * curveIncrement cfg - pi)])
            [0..<TOTAL_POINTS cfg]),
       curves := map (\<lambda>i. \<lparr>c0 = i, c1 = 2 * i, c2 = Suc (2 * i),
             c3 = next_index (TOTAL_POINTS cfg) i\<rparr>) [0..<TOTAL_POINTS cfg]\<rparr>"
proof -
  have nx: "\<And>i. i < TOTAL_POINTS cfg \<Longrightarrow> next_index (TOTAL_POINTS cfg) i < TOTAL_POINTS cfg"
    by (simp add: next_index_def)
  have init: "mids init_state = []" "curves init_state = []"
    by (simp_all add: init_state_def)
  have nth: "\<And>i. i < TOTAL_POINTS cfg \<Longrightarrow>
      map (new_point cfg) [0..<TOTAL_POINTS cfg] ! i = new_point cfg i"
    by simp
  have ms: "concat (map (\<lambda>x.
        [new_midPoint cfg (map (new_point cfg) [0..<TOTAL_POINTS cfg] ! x)
           (real x * curveIncrement cfg),
         new_midPoint cfg
           (map (new_point cfg) [0..<TOTAL_POINTS cfg] ! next_index (TOTAL_POINTS cfg) x)
           (real (next_index (TOTAL_POINTS cfg) x) * curveIncrement cfg - pi)])
        [0..<TOTAL_POINTS cfg])
    = concat (map (\<lambda>i.
        [new_midPoint cfg (new_point cfg i) (real i * curveIncrement cfg),
         new_midPoint cfg (new_point cfg (next_index (TOTAL_POINTS cfg) i))
           (real (next_index (TOTAL_POINTS cfg) i) * curveIncrement cfg - pi)])
        [0..<TOTAL_POINTS cfg])"
    by (rule arg_cong [where f = concat], rule map_cong) (simp_all add: nx nth del: nth_map)
  show ?thesis
    by (simp add: create_curves_def create_points_init create_curves_loop init ms)
qed

lemma build_length_points: "length (points (build cfg rnd)) = TOTAL_POINTS cfg"
  by (simp add: build_def connect_points_def create_curves_points connect_points_loop)

lemma build_length_mids: "length (mids (build cfg rnd)) = 2 * TOTAL_POINTS cfg"
  by (simp add: build_def connect_points_def create_curves_points connect_points_loop length_pairs)

lemma build_length_curves: "length (curves (build cfg rnd)) = TOTAL_POINTS cfg"
  by (simp add: build_def connect_points_def create_curves_points connect_points_loop)

lemma build_curve:
  "i < TOTAL_POINTS cfg \<Longrightarrow>
   curves (build cfg rnd) ! i =
     \<lparr>c0 = i, c1 = 2 * i, c2 = Suc (2 * i), c3 = next_index (TOTAL_POINTS cfg) i\<rparr>"
  by (simp add: build_def connect_points_def create_curves_points connect_points_loop)

lemma build_mid_first:
  "i < TOTAL_POINTS cfg \<Longrightarrow>
   mids (build cfg rnd) ! (2 * i) =
     new_midPoint cfg (new_point cfg i) (real i * curveIncrement cfg)"
  by (simp add: build_def connect_points_def create_curves_points connect_points_loop
      nth_pairs_even)

lemma build_mid_second:
  "i < TOTAL_POINTS cfg \<Longrightarrow>
   mids (build cfg rnd) ! Suc (2 * i) =
     new_midPoint cfg (new_point cfg (next_index (TOTAL_POINTS cfg) i))
       (real (next_index (TOTAL_POINTS cfg) i) * curveIncrement cfg - pi)"
  by (simp add: build_def connect_points_def create_curves_points connect_points_loop
      nth_pairs_odd)

lemma build_point:
  "i < TOTAL_POINTS cfg \<Longrightarrow>
   points (build cfg rnd) ! i =
     (new_point cfg i)\<lparr>midPointConnections :=
         Some (Suc (2 * prev_index (TOTAL_POINTS cfg) i), 2 * i),
       midPointMovementDirection := 1,
       midPointMovementSpeed := rnd i\<rparr>"
proof -
  assume i: "i < TOTAL_POINTS cfg"
  then have pv: "prev_index (TOTAL_POINTS cfg) i < TOTAL_POINTS cfg"
    by (auto simp add: prev_index_def)
  have init: "randomCalls init_state = 0"
    by (simp add: init_state_def)
  show ?thesis
    using i pv
    by (simp add: build_def connect_points_def create_curves_points connect_points_loop
        connected_point_def init)
qed

lemma build_flags:
  "draggingPoint (build cfg rnd) = None" "\<not> dragListeners (build cfg rnd)"
  "\<not> isAnimating (build cfg rnd)" "\<not> canRotate (build cfg rnd)"
  "randomCalls (build cfg rnd) = TOTAL_POINTS cfg"
proof -
  have init: "draggingPoint init_state = None" "\<not> dragListeners init_state"
    "\<not> isAnimating init_state" "\<not> canRotate init_state" "randomCalls init_state = 0"
    by (simp_all add: init_state_def)
  show "draggingPoint (build cfg rnd) = None" "\<not> dragListeners (build cfg rnd)"
    "\<not> isAnimating (build cfg rnd)" "\<not> canRotate (build cfg rnd)"
    "randomCalls (build cfg rnd) = TOTAL_POINTS cfg"
    by (simp_all add: build_def connect_points_def create_curves_points connect_points_loop
      init)
qed

section \<open>What one round of the tick touches\<close>

lemma upd_mid_simps:
  "points (upd_mid m f s) = points s"
  "curves (upd_mid m f s) = curves s"
  "mids (upd_mid m f s) = (mids s)[m := f (mids s ! m)]"
  "draggingPoint (upd_mid m f s) = draggingPoint s"
  "dragListeners (upd_mid m f s) = dragListeners s"
  "isAnimating (upd_mid m f s) = isAnimating s"
  "canRotate (upd_mid m f s) = canRotate s"
  "randomCalls (upd_mid m f s) = randomCalls s"
  by (simp_all add: upd_mid_def)

lemma set_movement_simps:
  "points (set_movement rnd i d s) =
     (points s)[i := (points s ! i)\<lparr>midPointMovementDirection := d,
        midPointMovementSpeed := rnd (randomCalls s)\<rparr>]"
  "curves (set_movement rnd i d s) = curves s"
  "mids (set_movement rnd i d s) = mids s"
  "draggingPoint (set_movement rnd i d s) = draggingPoint s"
  "dragListeners (set_movement rnd i d s) = dragListeners s"
  "isAnimating (set_movement rnd i d s) = isAnimating s"
  "canRotate (set_movement rnd i d s) = canRotate s"
  "randomCalls (set_movement rnd i d s) = Suc (randomCalls s)"
  by (simp_all add: set_movement_def random_def)

lemma update_angle_simps:
  "points (update_angle i m0 m1 s) = points s"
  "curves (update_angle i m0 m1 s) = curves s"
  "draggingPoint (update_angle i m0 m1 s) = draggingPoint s"
  "dragListeners (update_angle i m0 m1 s) = dragListeners s"
  "isAnimating (update_angle i m0 m1 s) = isAnimating s"
  "canRotate (update_angle i m0 m1 s) = canRotate s"
  "randomCalls (update_angle i m0 m1 s) = randomCalls s"
  "length (mids (update_angle i m0 m1 s)) = length (mids s)"
  by (simp_all add: update_angle_def Let_def upd_mid_simps)

lemma update_coordinates_simps:
  "points (update_coordinates cfg i m0 m1 s) = points s"
  "curves (update_coordinates cfg i m0 m1 s) = curves s"
  "draggingPoint (update_coordinates cfg i m0 m1 s) = draggingPoint s"
  "dragListeners (update_coordinates cfg i m0 m1 s) = dragListeners s"
  "isAnimating (update_coordinates cfg i m0 m1 s) = isAnimating s"
  "canRotate (update_coordinates cfg i m0 m1 s) = canRotate s"
  "randomCalls (update_coordinates cfg i m0 m1 s) = randomCalls s"
  "length (mids (update_coordinates cfg i m0 m1 s)) = length (mids s)"
  by (simp_all add: update_coordinates_def Let_def upd_mid_simps)

lemma reverse_direction_simps:
  "mids (reverse_direction cfg rnd i m0 m1 s) = mids s"
  "curves (reverse_direction cfg rnd i m0 m1 s) = curves s"
  "draggingPoint (reverse_direction cfg rnd i m0 m1 s) = draggingPoint s"
  "dragListeners (reverse_direction cfg rnd i m0 m1 s) = dragListeners s"
  "isAnimating (reverse_direction cfg rnd i m0 m1 s) = isAnimating s"
  "canRotate (reverse_direction cfg rnd i m0 m1 s) = canRotate s"
  "length (points (reverse_direction cfg rnd i m0 m1 s)) = length (points s)"
  by (simp_all add: reverse_direction_def set_movement_simps)

lemma set_movement_other:
  "j \<noteq> i \<Longrightarrow> points (set_movement rnd i d s) ! j = points s ! j"
  by (simp add: set_movement_simps)

lemma set_movement_point:
  "pt_x (points (set_movement rnd i d s) ! j) = pt_x (points s ! j)
   \<and> pt_y (points (set_movement rnd i d s) ! j) = pt_y (points s ! j)
   \<and> midPointConnections (points (set_movement rnd i d s) ! j)
       = midPointConnections (points s ! j)"
proof (cases "i < length (points s) \<and> j = i")
  case True
  then show ?thesis
    by (simp add: set_movement_simps)
next
  case False
  then have "points (set_movement rnd i d s) ! j = points s ! j"
    by (cases "j = i") (simp_all add: set_movement_simps list_update_beyond)
  then show ?thesis
    by simp
qed

lemma reverse_direction_point:
  "pt_x (points (reverse_direction cfg rnd i m0 m1 s) ! j) = pt_x (points s ! j)"
  "pt_y (points (reverse_direction cfg rnd i m0 m1 s) ! j) = pt_y (points s ! j)"
  "midPointConnections (points (reverse_direction cfg rnd i m0 m1 s) ! j)
     = midPointConnections (points s ! j)"
  "j \<noteq> i \<Longrightarrow> points (reverse_direction cfg rnd i m0 m1 s) ! j = points s ! j"
  by (simp_all add: reverse_direction_def set_movement_point set_movement_other)

lemma updateMidPoint_frame:
  "curves (updateMidPoint cfg rnd i s) = curves s"
  "draggingPoint (updateMidPoint cfg rnd i s) = draggingPoint s"
  "dragListeners (updateMidPoint cfg rnd i s) = dragListeners s"
  "isAnimating (updateMidPoint cfg rnd i s) = isAnimating s"
  "canRotate (updateMidPoint cfg rnd i s) = canRotate s"
  "length (points (updateMidPoint cfg rnd i s)) = length (points s)"
  "length (mids (updateMidPoint cfg rnd i s)) = length (mids s)"
  by (simp_all add: updateMidPoint_def update_angle_simps update_coordinates_simps
      reverse_direction_simps split: option.splits prod.splits)

lemma updateMidPoint_point:
  "pt_x (points (updateMidPoint cfg rnd i s) ! j) = pt_x (points s ! j)"
  "pt_y (points (updateMidPoint cfg rnd i s) ! j) = pt_y (points s ! j)"
  "midPointConnections (points (updateMidPoint cfg rnd i s) ! j)
     = midPointConnections (points s ! j)"
  "j \<noteq> i \<Longrightarrow> points (updateMidPoint cfg rnd i s) ! j = points s ! j"
  by (simp_all add: updateMidPoint_def update_angle_simps update_coordinates_simps
      reverse_direction_point split: option.splits prod.splits)

lemma upd_mid_other: "m \<noteq> k \<Longrightarrow> mids (upd_mid k f s) ! m = mids s ! m"
  by (simp add: upd_mid_simps)

lemma upd_mid_same: "k < length (mids s) \<Longrightarrow> mids (upd_mid k f s) ! k = f (mids s ! k)"
  by (simp add: upd_mid_simps)

lemma upd_mid_length: "length (mids (upd_mid k f s)) = length (mids s)"
  by (simp add: upd_mid_simps)

lemma upd_mid_preserve:
  assumes "\<And>x. g (f x) = g x"
  shows "g (mids (upd_mid k f s) ! m) = g (mids s ! m)"
proof (cases "k < length (mids s) \<and> m = k")
  case True
  then show ?thesis
    by (simp add: upd_mid_simps assms)
next
  case False
  then have "mids (upd_mid k f s) ! m = mids s ! m"
    by (cases "m = k") (simp_all add: upd_mid_simps list_update_beyond)
  then show ?thesis
    by simp
qed

lemma update_angle_other:
  "m \<noteq> m0 \<Longrightarrow> m \<noteq> m1 \<Longrightarrow> mids (update_angle i m0 m1 s) ! m = mids s ! m"
  by (simp add: update_angle_def Let_def upd_mid_other)

lemma update_angle_baseAngle:
  "baseAngle (mids (update_angle i m0 m1 s) ! m) = baseAngle (mids s ! m)"
  by (simp add: update_angle_def Let_def upd_mid_preserve)

lemma update_angle_own:
  assumes "m0 \<noteq> m1" "m0 < length (mids s)" "m1 < length (mids s)"
  shows "currentAngle (mids (update_angle i m0 m1 s) ! m0) =
           currentAngle (mids s ! m0) +
           midPointMovementSpeed (points s ! i) * 0.02 * midPointMovementDirection (points s ! i)"
    and "currentAngle (mids (update_angle i m0 m1 s) ! m1) =
           currentAngle (mids s ! m1) +
           midPointMovementSpeed (points s ! i) * 0.02 * midPointMovementDirection (points s ! i)"
  using assms
  by (simp_all add: update_angle_def Let_def upd_mid_simps)

lemma update_coordinates_other:
  "m \<noteq> m0 \<Longrightarrow> m \<noteq> m1 \<Longrightarrow> mids (update_coordinates cfg i m0 m1 s) ! m = mids s ! m"
  by (simp add: update_coordinates_def Let_def upd_mid_other)

lemma update_coordinates_angles:
  "baseAngle (mids (update_coordinates cfg i m0 m1 s) ! m) = baseAngle (mids s ! m)"
  "currentAngle (mids (update_coordinates cfg i m0 m1 s) ! m) = currentAngle (mids s ! m)"
  by (simp_all add: update_coordinates_def Let_def upd_mid_preserve)

lemma update_coordinates_derived:
  assumes "m0 < length (mids s)" "m1 < length (mids s)"
  shows "derived_from cfg (points s ! i) (mids (update_coordinates cfg i m0 m1 s) ! m0)"
    and "derived_from cfg (points s ! i) (mids (update_coordinates cfg i m0 m1 s) ! m1)"
  using assms
  by (simp_all add: update_coordinates_def Let_def upd_mid_simps nth_list_update
      derived_from_def getMidPointComponent_def)

lemma updateMidPoint_other_mid:
  "midPointConnections (points s ! i) = Some (m0, m1) \<Longrightarrow> m \<noteq> m0 \<Longrightarrow> m \<noteq> m1 \<Longrightarrow>
   mids (updateMidPoint cfg rnd i s) ! m = mids s ! m"
  by (simp add: updateMidPoint_def update_coordinates_other reverse_direction_simps
      update_angle_other)

lemma updateMidPoint_baseAngle:
  "baseAngle (mids (updateMidPoint cfg rnd i s) ! m) = baseAngle (mids s ! m)"
  by (simp add: updateMidPoint_def update_coordinates_angles reverse_direction_simps
      update_angle_baseAngle split: option.splits prod.splits)

lemma updateMidPoint_derived:
  assumes "midPointConnections (points s ! i) = Some (m0, m1)"
    and "m0 < length (mids s)" "m1 < length (mids s)"
  shows "derived_from cfg (points s ! i) (mids (updateMidPoint cfg rnd i s) ! m0)"
    and "derived_from cfg (points s ! i) (mids (updateMidPoint cfg rnd i s) ! m1)"
proof -
  let ?t = "reverse_direction cfg rnd i m0 m1 (update_angle i m0 m1 s)"
  have len: "m0 < length (mids ?t)" "m1 < length (mids ?t)"
    using assms by (simp_all add: reverse_direction_simps update_angle_simps)
  have d: "derived_from cfg (points ?t ! i) (mids (update_coordinates cfg i m0 m1 ?t) ! m0)"
    "derived_from cfg (points ?t ! i) (mids (update_coordinates cfg i m0 m1 ?t) ! m1)"
    using update_coordinates_derived [OF len] by simp_all
  have p: "pt_x (points ?t ! i) = pt_x (points s ! i)" "pt_y (points ?t ! i) = pt_y (points s ! i)"
    by (simp_all add: reverse_direction_point update_angle_simps)
  show "derived_from cfg (points s ! i) (mids (updateMidPoint cfg rnd i s) ! m0)"
    "derived_from cfg (points s ! i) (mids (updateMidPoint cfg rnd i s) ! m1)"
    using d p assms(1) by (simp_all add: updateMidPoint_def derived_from_def)
qed

section \<open>The references never change\<close>

lemma index_bounds:
  "i < n \<Longrightarrow> prev_index n i < n" "i < n \<Longrightarrow> next_index n i < n"
  by (auto simp add: prev_index_def next_index_def)

lemma next_prev: "i < n \<Longrightarrow> next_index n (prev_index n i) = i"
  by (auto simp add: prev_index_def next_index_def)

lemma prev_next: "i < n \<Longrightarrow> prev_index n (next_index n i) = i"
  by (auto simp add: prev_index_def next_index_def)

lemma prev_index_inj: "i < n \<Longrightarrow> j < n \<Longrightarrow> prev_index n i = prev_index n j \<Longrightarrow> i = j"
  by (metis next_prev)

lemma shape_updateMidPoint: "shape cfg s \<Longrightarrow> shape cfg (updateMidPoint cfg rnd i s)"
  by (simp add: shape_def updateMidPoint_frame updateMidPoint_point)

lemma shape_updateMidPoints: "shape cfg s \<Longrightarrow> shape cfg (updateMidPoints cfg rnd s)"
  unfolding updateMidPoints_def
  by (rule fold_invariant) (simp_all add: shape_updateMidPoint)

section \<open>A tick re-derives every control point\<close>

lemma shape_derived_iff:
  assumes "shape cfg s"
  shows "control_points_derived cfg s \<longleftrightarrow> (\<forall>i<TOTAL_POINTS cfg. anchor_derived cfg s i)"
proof
  assume cpd: "control_points_derived cfg s"
  show "\<forall>i<TOTAL_POINTS cfg. anchor_derived cfg s i"
  proof (intro allI impI)
    fix i assume i: "i < TOTAL_POINTS cfg"
    let ?p = "prev_index (TOTAL_POINTS cfg) i"
    have p: "?p < TOTAL_POINTS cfg" using i by (rule index_bounds)
    have lc: "length (curves s) = TOTAL_POINTS cfg"
      using assms by (simp add: shape_def)
    have "curves s ! i \<in> set (curves s)" "curves s ! ?p \<in> set (curves s)"
      using i p lc by (metis nth_mem)+
    with cpd have "derived_from cfg (points s ! c0 (curves s ! i)) (mids s ! c1 (curves s ! i))"
      "derived_from cfg (points s ! c3 (curves s ! ?p)) (mids s ! c2 (curves s ! ?p))"
      unfolding control_points_derived_def by blast+
    then show "anchor_derived cfg s i"
      using assms i p by (simp add: shape_def anchor_derived_def next_prev)
  qed
next
  assume ad: "\<forall>i<TOTAL_POINTS cfg. anchor_derived cfg s i"
  show "control_points_derived cfg s"
    unfolding control_points_derived_def
  proof
    fix c assume "c \<in> set (curves s)"
    then obtain i where i: "i < TOTAL_POINTS cfg" and c: "c = curves s ! i"
      using assms by (auto simp add: shape_def in_set_conv_nth)
    let ?n = "next_index (TOTAL_POINTS cfg) i"
    have n: "?n < TOTAL_POINTS cfg" using i by (rule index_bounds)
    have "anchor_derived cfg s i" "anchor_derived cfg s ?n"
      using ad i n by simp_all
    then show "derived_from cfg (points s ! c0 c) (mids s ! c1 c) \<and>
        derived_from cfg (points s ! c3 c) (mids s ! c2 c)"
      using assms i c by (simp add: shape_def anchor_derived_def prev_next)
  qed
qed

lemma anchor_derived_own:
  assumes "shape cfg s" "i < TOTAL_POINTS cfg"
  shows "anchor_derived cfg (updateMidPoint cfg rnd i s) i"
proof -
  let ?m0 = "Suc (2 * prev_index (TOTAL_POINTS cfg) i)" and ?m1 = "2 * i"
  have mc: "midPointConnections (points s ! i) = Some (?m0, ?m1)"
    using assms by (simp add: shape_def)
  have len: "?m0 < length (mids s)" "?m1 < length (mids s)"
    using assms index_bounds(1) [OF assms(2)] by (simp_all add: shape_def)
  have "derived_from cfg (points s ! i) (mids (updateMidPoint cfg rnd i s) ! ?m0)"
    "derived_from cfg (points s ! i) (mids (updateMidPoint cfg rnd i s) ! ?m1)"
    using updateMidPoint_derived [OF mc len] by simp_all
  then show ?thesis
    by (simp add: anchor_derived_def derived_from_def updateMidPoint_point)
qed

lemma pairs_disjoint:
  assumes "i < n" "j < n" "j \<noteq> i"
  shows "Suc (2 * prev_index n j) \<noteq> Suc (2 * prev_index n i)" "Suc (2 * prev_index n j) \<noteq> 2 * i"
    "2 * j \<noteq> Suc (2 * prev_index n i)" "2 * j \<noteq> 2 * i"
proof -
  have "prev_index n j \<noteq> prev_index n i"
    using assms prev_index_inj by blast
  then show "Suc (2 * prev_index n j) \<noteq> Suc (2 * prev_index n i)" by simp
  show "Suc (2 * prev_index n j) \<noteq> 2 * i" "2 * j \<noteq> Suc (2 * prev_index n i)" by presburger+
  show "2 * j \<noteq> 2 * i" using assms by simp
qed

lemma updateMidPoint_foreign_mids:
  assumes "shape cfg s" "i < TOTAL_POINTS cfg" "j < TOTAL_POINTS cfg" "j \<noteq> i"
  shows "mids (updateMidPoint cfg rnd i s) ! Suc (2 * prev_index (TOTAL_POINTS cfg) j)
           = mids s ! Suc (2 * prev_index (TOTAL_POINTS cfg) j)"
    and "mids (updateMidPoint cfg rnd i s) ! (2 * j) = mids s ! (2 * j)"
proof -
  have mc: "midPointConnections (points s ! i) =
      Some (Suc (2 * prev_index (TOTAL_POINTS cfg) i), 2 * i)"
    using assms by (simp add: shape_def)
  note d = pairs_disjoint [OF assms(2,3,4)]
  show "mids (updateMidPoint cfg rnd i s) ! Suc (2 * prev_index (TOTAL_POINTS cfg) j)
           = mids s ! Suc (2 * prev_index (TOTAL_POINTS cfg) j)"
    by (rule updateMidPoint_other_mid [OF mc d(1) d(2)])
  show "mids (updateMidPoint cfg rnd i s) ! (2 * j) = mids s ! (2 * j)"
    by (rule updateMidPoint_other_mid [OF mc d(3) d(4)])
qed

lemma anchor_derived_other:
  assumes "shape cfg s" "i < TOTAL_POINTS cfg" "j < TOTAL_POINTS cfg" "j \<noteq> i"
    and "anchor_derived cfg s j"
  shows "anchor_derived cfg (updateMidPoint cfg rnd i s) j"
  using assms(5) updateMidPoint_foreign_mids [OF assms(1-4)] assms(4)
  by (simp add: anchor_derived_def updateMidPoint_point)

lemma updateMidPoints_derived:
  assumes "shape cfg s"
  shows "control_points_derived cfg (updateMidPoints cfg rnd s)"
proof -
  let ?P = "\<lambda>k t. shape cfg t \<and> (\<forall>i<k. i < TOTAL_POINTS cfg \<longrightarrow> anchor_derived cfg t i)"
  have len: "length (points s) = TOTAL_POINTS cfg"
    using assms by (simp add: shape_def)
  have "?P (TOTAL_POINTS cfg) (fold (updateMidPoint cfg rnd) [0..<TOTAL_POINTS cfg] s)"
  proof (rule fold_upt_invariant [where P = ?P])
    show "?P 0 s" using assms by simp
  next
    fix k t assume k: "k < TOTAL_POINTS cfg" and P: "?P k t"
    show "?P (Suc k) (updateMidPoint cfg rnd k t)"
    proof (intro conjI allI impI)
      show "shape cfg (updateMidPoint cfg rnd k t)"
        using P by (simp add: shape_updateMidPoint)
    next
      fix i assume i: "i < Suc k" "i < TOTAL_POINTS cfg"
      show "anchor_derived cfg (updateMidPoint cfg rnd k t) i"
      proof (cases "i = k")
        case True
        then show ?thesis using P k by (simp add: anchor_derived_own)
      next
        case False
        then have "i < k" using i by simp
        then show ?thesis
          using P k i False by (simp add: anchor_derived_other)
      qed
    qed
  qed
  then have "shape cfg (updateMidPoints cfg rnd s)"
    and "\<forall>i<TOTAL_POINTS cfg. anchor_derived cfg (updateMidPoints cfg rnd s) i"
    by (simp_all add: updateMidPoints_def len)
  then show ?thesis
    by (simp add: shape_derived_iff)
qed

section \<open>The built shape and the handlers\<close>

lemma shape_build: "shape cfg (build cfg rnd)"
  by (simp add: shape_def build_length_points build_length_mids build_length_curves
      build_curve build_point)

lemma derived_new_midPoint:
  "pt_x p = pt_x q \<Longrightarrow> pt_y p = pt_y q \<Longrightarrow> derived_from cfg p (new_midPoint cfg q a)"
  by (simp add: derived_from_def new_midPoint_def getMidPointComponent_def)

lemma derived_build: "control_points_derived cfg (build cfg rnd)"
proof -
  have "anchor_derived cfg (build cfg rnd) i" if i: "i < TOTAL_POINTS cfg" for i
  proof -
    have p: "prev_index (TOTAL_POINTS cfg) i < TOTAL_POINTS cfg"
      using i by (rule index_bounds)
    show ?thesis
      using i p
      by (simp add: anchor_derived_def build_mid_first build_mid_second build_point next_prev
          derived_new_midPoint)
  qed
  then show ?thesis
    by (simp add: shape_derived_iff [OF shape_build])
qed

lemma shape_cong:
  assumes "points t = points s" "length (mids t) = length (mids s)" "curves t = curves s"
  shows "shape cfg t \<longleftrightarrow> shape cfg s"
  using assms by (simp add: shape_def)

lemma shape_mousedown: "shape cfg (mousedown cfg e s) \<longleftrightarrow> shape cfg s"
  by (rule shape_cong) (simp_all add: mousedown_def Let_def split: option.splits)

lemma shape_mouseup: "shape cfg (mouseup s) \<longleftrightarrow> shape cfg s"
  by (rule shape_cong) (simp_all add: mouseup_def)

lemma shape_keydown: "shape cfg (keydown c s) \<longleftrightarrow> shape cfg s"
  by (rule shape_cong) (simp_all add: keydown_def)

lemma mousemove_Inr:
  "draggingPoint s = Some d \<Longrightarrow>
   mousemove cfg e s =
     Inr (upd_mid d (\<lambda>m. m\<lparr>mp_y := clientY e - height cfg / 2\<rparr>)
           (upd_mid d (\<lambda>m. m\<lparr>mp_x := clientX e - width cfg / 2\<rparr>) s))"
  by (simp add: mousemove_def Let_def)

lemma shape_mousemove:
  "mousemove cfg e s = Inr s' \<Longrightarrow> shape cfg s' \<longleftrightarrow> shape cfg s"
  by (rule shape_cong)
     (auto simp add: mousemove_def Let_def upd_mid_simps split: option.splits)

lemma rotate_step_simps:
  "points (rotate_step rnd s) = points s"
  "mids (rotate_step rnd s) = mids s"
  "curves (rotate_step rnd s) = curves s"
  "draggingPoint (rotate_step rnd s) = draggingPoint s"
  "dragListeners (rotate_step rnd s) = dragListeners s"
  "isAnimating (rotate_step rnd s) = isAnimating s"
  by (simp_all add: rotate_step_def random_def Let_def)

lemma updateMidPoints_frame:
  "curves (updateMidPoints cfg rnd s) = curves s"
  "draggingPoint (updateMidPoints cfg rnd s) = draggingPoint s"
  "dragListeners (updateMidPoints cfg rnd s) = dragListeners s"
  "isAnimating (updateMidPoints cfg rnd s) = isAnimating s"
  "canRotate (updateMidPoints cfg rnd s) = canRotate s"
  "length (points (updateMidPoints cfg rnd s)) = length (points s)"
  "length (mids (updateMidPoints cfg rnd s)) = length (mids s)"
  unfolding updateMidPoints_def
  by (rule fold_invariant [where P = "\<lambda>t. _ t = _ s"]; simp add: updateMidPoint_frame)+

section \<open>No handler throws after a successful load\<close>

lemma render_ready:
  assumes "1 \<le> TOTAL_POINTS cfg" "ready cfg s"
  shows "render cfg rnd s =
           Inr (if isAnimating (rotate_step rnd s)
                then updateMidPoints cfg rnd (rotate_step rnd s) else rotate_step rnd s)"
    and "ready cfg (if isAnimating (rotate_step rnd s)
                then updateMidPoints cfg rnd (rotate_step rnd s) else rotate_step rnd s)"
proof -
  let ?s1 = "rotate_step rnd s"
  let ?s2 = "if isAnimating ?s1 then updateMidPoints cfg rnd ?s1 else ?s1"
  have s1: "shape cfg ?s1"
    using assms(2) shape_cong [of ?s1 s cfg] by (simp add: ready_def rotate_step_simps)
  then have s2: "shape cfg ?s2"
    by (simp add: shape_updateMidPoints)
  then have "length (curves ?s2) = TOTAL_POINTS cfg"
    by (simp add: shape_def)
  then have ne: "curves ?s2 \<noteq> []"
    using assms(1) by auto
  show "ready cfg ?s2"
    using s2 assms(2) by (simp add: ready_def updateMidPoints_frame rotate_step_simps)
  show "render cfg rnd s = Inr ?s2"
    using ne by (simp add: render_def Let_def)
qed

lemma ready_render:
  assumes "1 \<le> TOTAL_POINTS cfg" "ready cfg s"
  shows "\<exists>s'. render cfg rnd s = Inr s' \<and> ready cfg s'"
  using render_ready [OF assms] by blast

lemma ready_mousedown: "ready cfg s \<Longrightarrow> ready cfg (mousedown cfg e s)"
  unfolding ready_def shape_mousedown
  by (simp add: mousedown_def Let_def split: option.splits)

lemma ready_mousemove:
  assumes "ready cfg s" "dragListeners s"
  shows "\<exists>s'. mousemove cfg e s = Inr s' \<and> ready cfg s'"
proof -
  from assms obtain d where d: "draggingPoint s = Some d"
    by (auto simp add: ready_def)
  let ?s' = "upd_mid d (\<lambda>m. m\<lparr>mp_y := clientY e - height cfg / 2\<rparr>)
           (upd_mid d (\<lambda>m. m\<lparr>mp_x := clientX e - width cfg / 2\<rparr>) s)"
  have mm: "mousemove cfg e s = Inr ?s'"
    by (rule mousemove_Inr [OF d])
  have "ready cfg ?s'"
    using assms(1) shape_mousemove [OF mm] d by (simp add: ready_def upd_mid_simps)
  with mm show ?thesis by blast
qed

lemma ready_step:
  assumes "1 \<le> TOTAL_POINTS cfg" "ready cfg s"
  shows "\<exists>s'. step cfg rnd ev s = Inr s' \<and> ready cfg s'"
proof (cases ev)
  case Frame
  then show ?thesis using ready_render [OF assms] by (simp add: step_def)
next
  case (MouseDown e)
  then show ?thesis using assms(2) by (simp add: step_def ready_mousedown)
next
  case (MouseMove e)
  then show ?thesis
    using assms(2) ready_mousemove [of cfg s e] by (simp add: step_def)
next
  case MouseUp
  then show ?thesis
    using assms(2) by (simp add: step_def ready_def shape_mouseup) (simp add: mouseup_def)
next
  case (KeyDown c)
  then show ?thesis
    using assms(2) by (simp add: step_def ready_def shape_keydown) (simp add: keydown_def)
qed

lemma ready_run:
  assumes "1 \<le> TOTAL_POINTS cfg"
  shows "ready cfg s \<Longrightarrow> \<exists>s'. run cfg rnd evs s = Inr s' \<and> ready cfg s'"
proof (induction evs arbitrary: s)
  case Nil
  then show ?case by simp
next
  case (Cons ev evs)
  from ready_step [OF assms Cons.prems] obtain t
    where t: "step cfg rnd ev s = Inr t" "ready cfg t" by blast
  then show ?case
    using Cons.IH [of t] by simp
qed

lemma ready_build: "ready cfg (build cfg rnd)"
  by (simp add: ready_def shape_build build_flags)

lemma window_onload_eq:
  "window_onload cfg rnd =
     (if TOTAL_POINTS cfg = 0 then Inl TypeError else Inr (build cfg rnd))"
proof -
  have "curves (build cfg rnd) = [] \<longleftrightarrow> TOTAL_POINTS cfg = 0"
    using build_length_curves [of cfg rnd] by (metis length_0_conv)
  then show ?thesis
    by (simp add: window_onload_def render_def rotate_step_def build_flags Let_def)
qed

lemma ready_session:
  assumes "1 \<le> TOTAL_POINTS cfg"
  shows "\<exists>s. session cfg rnd evs = Inr s \<and> ready cfg s"
  using assms ready_run [OF assms ready_build, of rnd evs rnd]
  by (simp add: session_def window_onload_eq)

lemma derived_cong:
  assumes "points t = points s" "mids t = mids s" "curves t = curves s"
  shows "control_points_derived cfg t \<longleftrightarrow> control_points_derived cfg s"
  using assms by (simp add: control_points_derived_def)

lemma derived_step:
  assumes "1 \<le> TOTAL_POINTS cfg" "ready cfg s" "control_points_derived cfg s"
    and "\<And>e. ev \<noteq> MouseMove e"
  shows "\<exists>s'. step cfg rnd ev s = Inr s' \<and> control_points_derived cfg s'"
proof (cases ev)
  case Frame
  let ?s1 = "rotate_step rnd s"
  let ?s2 = "if isAnimating ?s1 then updateMidPoints cfg rnd ?s1 else ?s1"
  have r: "render cfg rnd s = Inr ?s2"
    by (rule render_ready(1) [OF assms(1,2)])
  have s1: "shape cfg ?s1"
    using assms(2) shape_cong [of ?s1 s cfg] by (simp add: ready_def rotate_step_simps)
  have d1: "control_points_derived cfg ?s1"
    using assms(3) derived_cong [of ?s1 s cfg] by (simp add: rotate_step_simps)
  have "control_points_derived cfg ?s2"
    using s1 d1 by (simp add: updateMidPoints_derived)
  then show ?thesis using r Frame by (simp add: step_def)
next
  case (MouseDown e)
  have "control_points_derived cfg (mousedown cfg e s)"
    using assms(3) derived_cong [of "mousedown cfg e s" s cfg]
    by (simp add: mousedown_def Let_def split: option.splits)
  then show ?thesis using MouseDown by (simp add: step_def)
next
  case (MouseMove e)
  then show ?thesis using assms(4) by simp
next
  case MouseUp
  have "control_points_derived cfg (mouseup s)"
    using assms(3) derived_cong [of "mouseup s" s cfg] by (simp add: mouseup_def)
  then show ?thesis using MouseUp assms(3) by (simp add: step_def)
next
  case (KeyDown c)
  have "control_points_derived cfg (keydown c s)"
    using assms(3) derived_cong [of "keydown c s" s cfg] by (simp add: keydown_def)
  then show ?thesis using KeyDown by (simp add: step_def)
qed

section \<open>The script's own shape\<close>

lemma source_first_curve:
  "curves (build source_config rnd) =
     \<lparr>c0 = 0, c1 = 0, c2 = Suc 0, c3 = 1\<rparr> # drop 1 (curves (build source_config rnd))"
proof -
  have N: "TOTAL_POINTS source_config = 5"
    by (simp add: source_config_def)
  have "curves (build source_config rnd)
      = curves (build source_config rnd) ! 0 # drop (Suc 0) (curves (build source_config rnd))"
    using Cons_nth_drop_Suc [of 0 "curves (build source_config rnd)"]
    by (simp add: build_length_curves N)
  then show ?thesis
    using build_curve [of 0 source_config rnd] by (simp add: N next_index_def)
qed

lemma source_first_mid:
  "mids (build source_config rnd) ! 0 =
     \<lparr>mp_x = 250 * kappa source_config, mp_y = - 250, baseAngle = 0, currentAngle = 0\<rparr>"
proof -
  have N: "(0::nat) < TOTAL_POINTS source_config"
    by (simp add: source_config_def)
  show ?thesis
    using build_mid_first [OF N, of rnd]
    by (simp add: new_midPoint_def new_point_def getMidPointComponent_def curveStartAngle_def
        Let_def) (simp add: source_config_def)
qed

lemma kappa_source_pos: "0 < kappa source_config"
  by (simp add: kappa_def source_config_def)

lemma source_grab:
  "mousedown source_config \<lparr>clientX = 250 * kappa source_config + 500, clientY = 150\<rparr>
     (build source_config rnd)
   = (build source_config rnd)\<lparr>draggingPoint := Some 0, dragListeners := True\<rparr>"
proof -
  have "scan_curves (250 * kappa source_config) (- 250) (mids (build source_config rnd))
      (curves (build source_config rnd)) = Some 0"
    by (subst source_first_curve)
       (simp add: source_first_mid circlePointCollision_def distance_def)
  then show ?thesis
    by (simp add: mousedown_def) (simp add: source_config_def)
qed

lemma grabbed_shape_eq:
  "grabbed_shape = (build source_config (steady 0))\<lparr>draggingPoint := Some 0, dragListeners := True\<rparr>"
  by (simp add: grabbed_shape_def source_grab)

lemma build_anchor_position:
  assumes "i < TOTAL_POINTS cfg"
  shows "pt_x (points (build cfg rnd) ! i)
           = baseRadius cfg * cos (curveStartAngle + real i * (2 * pi / real (TOTAL_POINTS cfg)))"
    and "pt_y (points (build cfg rnd) ! i)
           = baseRadius cfg * sin (curveStartAngle + real i * (2 * pi / real (TOTAL_POINTS cfg)))"
  by (simp_all add: build_point [OF assms] new_point_def curveIncrement_def Let_def mult.commute)

section \<open>What a tick and a drag leave alone\<close>

lemma updateMidPoints_point:
  "pt_x (points (updateMidPoints cfg rnd s) ! j) = pt_x (points s ! j)"
  "pt_y (points (updateMidPoints cfg rnd s) ! j) = pt_y (points s ! j)"
  "midPointConnections (points (updateMidPoints cfg rnd s) ! j)
     = midPointConnections (points s ! j)"
  unfolding updateMidPoints_def
  by (rule fold_invariant [where P = "\<lambda>t. _ (points t ! j) = _ (points s ! j)"];
      simp add: updateMidPoint_point)+

lemma updateMidPoints_baseAngle:
  "baseAngle (mids (updateMidPoints cfg rnd s) ! m) = baseAngle (mids s ! m)"
  unfolding updateMidPoints_def
  by (rule fold_invariant [where P = "\<lambda>t. baseAngle (mids t ! m) = baseAngle (mids s ! m)"];
      simp add: updateMidPoint_baseAngle)

lemma ticks_frame:
  "curves ((updateMidPoints cfg rnd ^^ n) s) = curves s"
  "midPointConnections (points ((updateMidPoints cfg rnd ^^ n) s) ! j)
     = midPointConnections (points s ! j)"
  by (induction n) (simp_all add: updateMidPoints_frame updateMidPoints_point)

lemma prev_index_mod: "i < n \<Longrightarrow> prev_index n i = (i + n - 1) mod n"
  by (cases "i = 0") (simp_all add: prev_index_def mod_if)

lemma mousemove_frame:
  assumes "mousemove cfg e s = Inr s'"
  shows "points s' = points s" "curves s' = curves s"
    "length (mids s') = length (mids s)"
    "baseAngle (mids s' ! m) = baseAngle (mids s ! m)"
    "currentAngle (mids s' ! m) = currentAngle (mids s ! m)"
    "draggingPoint s \<noteq> Some m \<Longrightarrow> mids s' ! m = mids s ! m"
proof -
  from assms obtain d where d: "draggingPoint s = Some d"
    by (auto simp add: mousemove_def split: option.splits)
  have s': "s' = upd_mid d (\<lambda>m. m\<lparr>mp_y := clientY e - height cfg / 2\<rparr>)
           (upd_mid d (\<lambda>m. m\<lparr>mp_x := clientX e - width cfg / 2\<rparr>) s)"
    using assms mousemove_Inr [OF d, of cfg e] by simp
  show "points s' = points s" "curves s' = curves s" "length (mids s') = length (mids s)"
    by (simp_all add: s' upd_mid_simps)
  show "baseAngle (mids s' ! m) = baseAngle (mids s ! m)"
    "currentAngle (mids s' ! m) = currentAngle (mids s ! m)"
    by (simp_all add: s' upd_mid_preserve)
  show "draggingPoint s \<noteq> Some m \<Longrightarrow> mids s' ! m = mids s ! m"
    using d by (simp add: s' upd_mid_other)
qed

section \<open>The scan of \<^verbatim>\<open>mousedown\<close> as a search\<close>

lemma collision_euclidean:
  "circlePointCollision x y \<lparr>circ_x = a, circ_y = b, radius = r\<rparr>
     \<longleftrightarrow> sqrt ((a - x)\<^sup>2 + (b - y)\<^sup>2) \<le> r"
proof -
  have "(x - a) * (x - a) + (y - b) * (y - b) = (a - x)\<^sup>2 + (b - y)\<^sup>2"
    by (simp add: power2_eq_square algebra_simps)
  then show ?thesis
    by (simp add: circlePointCollision_def distance_def)
qed

lemma scan_slots_find:
  "scan_slots x y ms rs =
     find (\<lambda>m. sqrt ((mp_x (ms ! m) - x)\<^sup>2 + (mp_y (ms ! m) - y)\<^sup>2) \<le> 10) rs"
  by (induction rs) (simp_all add: collision_euclidean)

lemma scan_curves_find:
  "scan_curves x y ms cs =
     find (\<lambda>m. sqrt ((mp_x (ms ! m) - x)\<^sup>2 + (mp_y (ms ! m) - y)\<^sup>2) \<le> 10)
       (concat (map (\<lambda>c. [c1 c, c2 c]) cs))"
proof (induction cs)
  case Nil
  then show ?case by simp
next
  case (Cons c cs)
  then show ?case
    by (simp add: collision_euclidean split: option.splits)
qed

section \<open>The oscillation of one anchor\<close>

lemma set_movement_own:
  "i < length (points s) \<Longrightarrow>
   midPointMovementDirection (points (set_movement rnd i d s) ! i) = d \<and>
   midPointMovementSpeed (points (set_movement rnd i d s) ! i) = rnd (randomCalls s)"
  by (simp add: set_movement_simps)

lemma sweep_of_other:
  assumes "shape cfg s" "i < TOTAL_POINTS cfg" "j < TOTAL_POINTS cfg" "j \<noteq> i"
  shows "sweep_of cfg (updateMidPoint cfg rnd i s) j = sweep_of cfg s j"
  using updateMidPoint_foreign_mids [OF assms] assms(4)
  by (simp add: sweep_of_def updateMidPoint_point)

lemma sweep_of_update_angle:
  assumes "m0 = Suc (2 * prev_index (TOTAL_POINTS cfg) i)" "m1 = 2 * i"
    and "m0 < length (mids s)" "m1 < length (mids s)"
  shows "sweep_of cfg (update_angle i m0 m1 s) i = sweep_move (sweep_of cfg s i)"
proof -
  have ne: "m0 \<noteq> m1" unfolding assms(1,2) by presburger
  note own = update_angle_own [OF ne assms(3,4), of i]
  show ?thesis
    using own unfolding assms(1,2)
    by (simp add: sweep_of_def sweep_move_def update_angle_simps update_angle_baseAngle)
qed

lemma sweep_of_reverse_direction:
  assumes "m0 = Suc (2 * prev_index (TOTAL_POINTS cfg) i)" "m1 = 2 * i"
    and "i < length (points s)"
  shows "sweep_of cfg (reverse_direction cfg rnd i m0 m1 s) i
       = sweep_turn (MAX_MIDPOINT_ROTATION cfg) (rnd (randomCalls s)) (sweep_of cfg s i)"
  using assms(3) unfolding assms(1,2)
  by (simp add: sweep_of_def sweep_turn_def reverse_direction_def set_movement_simps)

lemma sweep_of_update_coordinates:
  "sweep_of cfg (update_coordinates cfg i m0 m1 s) j = sweep_of cfg s j"
  by (simp add: sweep_of_def update_coordinates_simps update_coordinates_angles)

lemma sweep_of_own:
  assumes "shape cfg s" "i < TOTAL_POINTS cfg"
  shows "sweep_of cfg (updateMidPoint cfg rnd i s) i
       = sweep_step (MAX_MIDPOINT_ROTATION cfg) (rnd (randomCalls s)) (sweep_of cfg s i)"
proof -
  let ?m0 = "Suc (2 * prev_index (TOTAL_POINTS cfg) i)" and ?m1 = "2 * i"
  have mc: "midPointConnections (points s ! i) = Some (?m0, ?m1)"
    using assms by (simp add: shape_def)
  have len: "?m0 < length (mids s)" "?m1 < length (mids s)" and li: "i < length (points s)"
    using assms index_bounds(1) [OF assms(2)] by (simp_all add: shape_def)
  have li': "i < length (points (update_angle i ?m0 ?m1 s))"
    using li by (simp add: update_angle_simps)
  show ?thesis
    by (simp add: updateMidPoint_def mc sweep_of_update_coordinates
        sweep_of_reverse_direction [OF refl refl li']
        sweep_of_update_angle [OF refl refl len] sweep_step_def update_angle_simps)
qed

lemma sweep_ok_step:
  assumes "sweep_ok limit w" "0 < limit" "0 \<le> r" "r < 1"
  shows "sweep_ok limit (sweep_step limit r w)"
proof -
  from assms(1) consider "direction w = 1" | "direction w = - 1"
    by (auto simp add: sweep_ok_def)
  then show ?thesis
  proof cases
    case 1
    then show ?thesis
      using assms
      by (auto simp add: sweep_ok_def sweep_step_def sweep_turn_def sweep_move_def)
  next
    case 2
    then show ?thesis
      using assms
      by (auto simp add: sweep_ok_def sweep_step_def sweep_turn_def sweep_move_def)
  qed
qed

lemma sweep_step_bases:
  "base0 (sweep_step limit r w) = base0 w" "base1 (sweep_step limit r w) = base1 w"
  by (simp_all add: sweep_step_def sweep_turn_def sweep_move_def)

lemma sweep_of_tick:
  assumes "shape cfg s" "i < TOTAL_POINTS cfg"
  shows "\<exists>k. sweep_of cfg (updateMidPoints cfg rnd s) i
           = sweep_step (MAX_MIDPOINT_ROTATION cfg) (rnd k) (sweep_of cfg s i)"
proof -
  let ?P = "\<lambda>k t. shape cfg t \<and>
      (if i < k
       then \<exists>q. sweep_of cfg t i = sweep_step (MAX_MIDPOINT_ROTATION cfg) (rnd q) (sweep_of cfg s i)
       else sweep_of cfg t i = sweep_of cfg s i)"
  have len: "length (points s) = TOTAL_POINTS cfg"
    using assms by (simp add: shape_def)
  have "?P (TOTAL_POINTS cfg) (fold (updateMidPoint cfg rnd) [0..<TOTAL_POINTS cfg] s)"
  proof (rule fold_upt_invariant [where P = ?P])
    show "?P 0 s" using assms by simp
  next
    fix k t assume k: "k < TOTAL_POINTS cfg" and P: "?P k t"
    then have sh: "shape cfg t" by simp
    show "?P (Suc k) (updateMidPoint cfg rnd k t)"
    proof (cases "i = k")
      case True
      with P have "sweep_of cfg t i = sweep_of cfg s i" by simp
      then have "sweep_of cfg (updateMidPoint cfg rnd k t) i
          = sweep_step (MAX_MIDPOINT_ROTATION cfg) (rnd (randomCalls t)) (sweep_of cfg s i)"
        using sweep_of_own [OF sh k, of rnd] True by simp
      then show ?thesis
        using True sh by (auto simp add: shape_updateMidPoint)
    next
      case False
      have "sweep_of cfg (updateMidPoint cfg rnd k t) i = sweep_of cfg t i"
        using sweep_of_other [OF sh k assms(2)] False by simp
      then show ?thesis
        using False P sh by (auto simp add: shape_updateMidPoint less_Suc_eq)
    qed
  qed
  then show ?thesis
    using assms(2) by (simp add: updateMidPoints_def len)
qed

lemma shape_ticks: "shape cfg s \<Longrightarrow> shape cfg ((updateMidPoints cfg rnd ^^ n) s)"
  by (induction n) (simp_all add: shape_updateMidPoints)

lemma sweep_ok_ticks:
  assumes "shape cfg s" "i < TOTAL_POINTS cfg" "0 < MAX_MIDPOINT_ROTATION cfg"
    and "\<forall>k. 0 \<le> rnd k \<and> rnd k < 1"
    and "sweep_ok (MAX_MIDPOINT_ROTATION cfg) (sweep_of cfg s i)"
  shows "sweep_ok (MAX_MIDPOINT_ROTATION cfg) (sweep_of cfg ((updateMidPoints cfg rnd ^^ n) s) i)
       \<and> base0 (sweep_of cfg ((updateMidPoints cfg rnd ^^ n) s) i) = base0 (sweep_of cfg s i)
       \<and> base1 (sweep_of cfg ((updateMidPoints cfg rnd ^^ n) s) i) = base1 (sweep_of cfg s i)"
proof (induction n)
  case 0
  then show ?case using assms(5) by simp
next
  case (Suc n)
  let ?t = "(updateMidPoints cfg rnd ^^ n) s"
  have sh: "shape cfg ?t"
    using assms(1) by (rule shape_ticks)
  from sweep_of_tick [OF sh assms(2), of rnd] obtain k
    where k: "sweep_of cfg (updateMidPoints cfg rnd ?t) i
           = sweep_step (MAX_MIDPOINT_ROTATION cfg) (rnd k) (sweep_of cfg ?t i)" by blast
  have "sweep_ok (MAX_MIDPOINT_ROTATION cfg)
      (sweep_step (MAX_MIDPOINT_ROTATION cfg) (rnd k) (sweep_of cfg ?t i))"
    using Suc.IH assms(3,4) by (simp add: sweep_ok_step)
  then show ?case
    using Suc.IH by (simp add: k sweep_step_bases)
qed

lemma sweep_of_build:
  assumes "i < TOTAL_POINTS cfg"
  shows "sweep_of cfg (build cfg rnd) i =
     \<lparr>angle0 = real i * curveIncrement cfg - pi, angle1 = real i * curveIncrement cfg,
      base0 = real i * curveIncrement cfg - pi, base1 = real i * curveIncrement cfg,
      direction = 1, speed = rnd i\<rparr>"
proof -
  have p: "prev_index (TOTAL_POINTS cfg) i < TOTAL_POINTS cfg"
    using assms by (rule index_bounds)
  show ?thesis
    using assms
    by (simp add: sweep_of_def build_mid_first [OF assms] build_mid_second [OF p]
        build_point [OF assms] next_prev new_midPoint_def)
qed

lemma sweep_ok_first:
  assumes "sweep_ok limit w"
  shows "(direction w = 1 \<longrightarrow> angle0 w < base0 w + limit)
       \<and> (direction w = - 1 \<longrightarrow> base0 w - limit < angle0 w)
       \<and> base0 w - limit - 0.02 < angle0 w \<and> angle0 w < base0 w + limit + 0.02"
proof -
  from assms have eq: "angle0 w = angle1 w - base1 w + base0 w"
    by (simp add: sweep_ok_def)
  show ?thesis
    using assms unfolding eq by (auto simp add: sweep_ok_def)
qed

lemma sweep_ok_second:
  assumes "sweep_ok limit w"
  shows "(direction w = 1 \<longrightarrow> angle1 w < base1 w + limit)
       \<and> (direction w = - 1 \<longrightarrow> base1 w - limit < angle1 w)
       \<and> base1 w - limit - 0.02 < angle1 w \<and> angle1 w < base1 w + limit + 0.02"
  using assms by (simp add: sweep_ok_def)

section \<open>A sweep traced tick by tick\<close>

lemma sweep_step_cases:
  assumes "angle0 w - base0 w = x" "angle1 w - base1 w = x"
    and "y = x + speed w * 0.02 * direction w"
  shows "limit \<le> y \<Longrightarrow>
           sweep_step limit r w = (sweep_move w)\<lparr>direction := - 1, speed := r\<rparr>"
    and "y < limit \<Longrightarrow> y \<le> - limit \<Longrightarrow>
           sweep_step limit r w = (sweep_move w)\<lparr>direction := 1, speed := r\<rparr>"
    and "y < limit \<Longrightarrow> - limit < y \<Longrightarrow> sweep_step limit r w = sweep_move w"
proof -
  have a0: "angle0 (sweep_move w) = base0 w + y" and a1: "angle1 (sweep_move w) = base1 w + y"
    and b: "base0 (sweep_move w) = base0 w" "base1 (sweep_move w) = base1 w"
    using assms by (simp_all add: sweep_move_def)
  show "limit \<le> y \<Longrightarrow>
           sweep_step limit r w = (sweep_move w)\<lparr>direction := - 1, speed := r\<rparr>"
    by (simp add: sweep_step_def sweep_turn_def a0 a1 b)
  show "y < limit \<Longrightarrow> y \<le> - limit \<Longrightarrow>
           sweep_step limit r w = (sweep_move w)\<lparr>direction := 1, speed := r\<rparr>"
    by (simp add: sweep_step_def sweep_turn_def a0 a1 b)
  show "y < limit \<Longrightarrow> - limit < y \<Longrightarrow> sweep_step limit r w = sweep_move w"
    by (simp add: sweep_step_def sweep_turn_def a0 a1 b)
qed

lemma units_below: "x \<le> 33 \<Longrightarrow> x * (pi / 200) < pi / 6"
proof -
  assume "x \<le> 33"
  then have "x * (pi / 200) \<le> 33 * (pi / 200)"
    by (intro mult_right_mono) simp_all
  also have "\<dots> < pi / 6"
    by simp
  finally show ?thesis .
qed

lemma units_above: "- 33 \<le> x \<Longrightarrow> - (pi / 6) < x * (pi / 200)"
proof -
  assume "- 33 \<le> x"
  then have "- x \<le> 33" by simp
  then have "- x * (pi / 200) < pi / 6"
    by (rule units_below)
  then show ?thesis
    by (simp only: mult_minus_left)
qed

lemma step_up:
  assumes "n < 33"
  shows "sweep_step (pi / 6) (pi / 4) (up_sweep n) = up_sweep (Suc n)"
proof -
  let ?y = "real (Suc n) * (pi / 200)"
  have y: "?y = real n * (pi / 200) + speed (up_sweep n) * 0.02 * direction (up_sweep n)"
    by (simp add: up_sweep_def algebra_simps)
  have lt: "?y < pi / 6"
    using assms by (intro units_below) simp
  have gt: "- (pi / 6) < ?y"
    by (intro units_above) simp
  have "sweep_step (pi / 6) (pi / 4) (up_sweep n) = sweep_move (up_sweep n)"
    by (rule sweep_step_cases(3) [OF _ _ y lt gt]) (simp_all add: up_sweep_def)
  also have "\<dots> = up_sweep (Suc n)"
    by (simp add: sweep_move_def up_sweep_def algebra_simps)
  finally show ?thesis .
qed

lemma step_top: "sweep_step (pi / 6) (pi / 4) (up_sweep 33) = down_sweep 0"
proof -
  let ?y = "34 * (pi / 200)"
  have y: "?y = real 33 * (pi / 200) + speed (up_sweep 33) * 0.02 * direction (up_sweep 33)"
    by (simp add: up_sweep_def algebra_simps)
  have ge: "pi / 6 \<le> ?y"
    by simp
  have "sweep_step (pi / 6) (pi / 4) (up_sweep 33)
      = (sweep_move (up_sweep 33))\<lparr>direction := - 1, speed := pi / 4\<rparr>"
    by (rule sweep_step_cases(1) [OF _ _ y ge]) (simp_all add: up_sweep_def)
  also have "\<dots> = down_sweep 0"
    by (simp add: sweep_move_def up_sweep_def down_sweep_def field_simps)
  finally show ?thesis .
qed

lemma step_down:
  assumes "k < 67"
  shows "sweep_step (pi / 6) (pi / 4) (down_sweep k) = down_sweep (Suc k)"
proof -
  let ?y = "(34 - real (Suc k)) * (pi / 200)"
  have y: "?y = (34 - real k) * (pi / 200)
      + speed (down_sweep k) * 0.02 * direction (down_sweep k)"
    by (simp add: down_sweep_def field_simps)
  have lt: "?y < pi / 6"
    by (intro units_below) simp
  have gt: "- (pi / 6) < ?y"
    using assms by (intro units_above) simp
  have "sweep_step (pi / 6) (pi / 4) (down_sweep k) = sweep_move (down_sweep k)"
    by (rule sweep_step_cases(3) [OF _ _ y lt gt]) (simp_all add: down_sweep_def)
  also have "\<dots> = down_sweep (Suc k)"
    by (simp add: sweep_move_def down_sweep_def field_simps)
  finally show ?thesis .
qed

lemma step_bottom:
  "sweep_step (pi / 6) (pi / 4) (down_sweep 67) = (down_sweep 68)\<lparr>direction := 1\<rparr>"
proof -
  let ?y = "- 34 * (pi / 200)"
  have y: "?y = (34 - real 67) * (pi / 200)
      + speed (down_sweep 67) * 0.02 * direction (down_sweep 67)"
    by (simp add: down_sweep_def algebra_simps)
  have "0 < pi" by simp
  then have lt: "?y < pi / 6" and le: "?y \<le> - (pi / 6)"
    by linarith+
  have "sweep_step (pi / 6) (pi / 4) (down_sweep 67)
      = (sweep_move (down_sweep 67))\<lparr>direction := 1, speed := pi / 4\<rparr>"
    by (rule sweep_step_cases(2) [OF _ _ y lt le]) (simp_all add: down_sweep_def)
  also have "\<dots> = (down_sweep 68)\<lparr>direction := 1\<rparr>"
    by (simp add: sweep_move_def down_sweep_def field_simps)
  finally show ?thesis .
qed

lemma steps_up: "n \<le> 33 \<Longrightarrow> (sweep_step (pi / 6) (pi / 4) ^^ n) (up_sweep 0) = up_sweep n"
  by (induction n) (simp_all add: step_up)

lemma steps_down: "k \<le> 67 \<Longrightarrow> (sweep_step (pi / 6) (pi / 4) ^^ k) (down_sweep 0) = down_sweep k"
  by (induction k) (simp_all add: step_down)

lemma steps_101: "(sweep_step (pi / 6) (pi / 4) ^^ 101) (up_sweep 0) = down_sweep 67"
proof -
  have "(sweep_step (pi / 6) (pi / 4) ^^ (67 + Suc 33)) (up_sweep 0)
      = (sweep_step (pi / 6) (pi / 4) ^^ 67)
          (sweep_step (pi / 6) (pi / 4) ((sweep_step (pi / 6) (pi / 4) ^^ 33) (up_sweep 0)))"
    by (simp only: funpow_add o_apply funpow.simps)
  also have "\<dots> = down_sweep 67"
    by (simp add: steps_up step_top steps_down)
  finally show ?thesis by simp
qed

lemma steps_102:
  "(sweep_step (pi / 6) (pi / 4) ^^ 102) (up_sweep 0) = (down_sweep 68)\<lparr>direction := 1\<rparr>"
proof -
  have "(sweep_step (pi / 6) (pi / 4) ^^ Suc 101) (up_sweep 0)
      = sweep_step (pi / 6) (pi / 4) ((sweep_step (pi / 6) (pi / 4) ^^ 101) (up_sweep 0))"
    by (simp only: funpow.simps o_apply)
  also have "\<dots> = (down_sweep 68)\<lparr>direction := 1\<rparr>"
    by (simp only: steps_101 step_bottom)
  finally show ?thesis by simp
qed

lemma sweep_of_ticks_steady:
  assumes "shape cfg s" "i < TOTAL_POINTS cfg"
  shows "sweep_of cfg ((updateMidPoints cfg (steady c) ^^ n) s) i
       = (sweep_step (MAX_MIDPOINT_ROTATION cfg) c ^^ n) (sweep_of cfg s i)"
proof (induction n)
  case 0
  then show ?case by simp
next
  case (Suc n)
  have sh: "shape cfg ((updateMidPoints cfg (steady c) ^^ n) s)"
    using assms(1) by (rule shape_ticks)
  from sweep_of_tick [OF sh assms(2), of "steady c"] obtain k
    where k: "sweep_of cfg (updateMidPoints cfg (steady c) ((updateMidPoints cfg (steady c) ^^ n) s)) i
      = sweep_step (MAX_MIDPOINT_ROTATION cfg) (steady c k)
          (sweep_of cfg ((updateMidPoints cfg (steady c) ^^ n) s) i)"
    by blast
  have c: "steady c k = c"
    by (simp add: steady_def)
  show ?case
    using k unfolding c by (simp add: Suc.IH)
qed

lemma sweep_of_quarter_pi_run:
  "sweep_of source_config (quarter_pi_run n) 0
     = (sweep_step (pi / 6) (pi / 4) ^^ n) (up_sweep 0)"
proof -
  have N: "(0::nat) < TOTAL_POINTS source_config"
    by (simp add: source_config_def)
  have L: "MAX_MIDPOINT_ROTATION source_config = pi / 6"
    by (simp add: source_config_def)
  have start: "sweep_of source_config (build source_config (steady (pi / 4))) 0 = up_sweep 0"
    by (simp add: sweep_of_build [OF N] up_sweep_def steady_def)
  show ?thesis
    unfolding quarter_pi_run_def
    by (simp add: sweep_of_ticks_steady [OF shape_build N] L start)
qed

lemma step_mousemove_others:
  assumes "step cfg rnd (MouseMove e) s = Inr s'"
  shows "curves s' = curves s"
    and "draggingPoint s \<noteq> Some m \<Longrightarrow> derived_from cfg (points s ! a) (mids s ! m) \<Longrightarrow>
         derived_from cfg (points s' ! a) (mids s' ! m)"
proof -
  have "curves s' = curves s \<and> points s' = points s
      \<and> (draggingPoint s \<noteq> Some m \<longrightarrow> mids s' ! m = mids s ! m)"
  proof (cases "dragListeners s")
    case True
    then have mm: "mousemove cfg e s = Inr s'"
      using assms by (simp add: step_def)
    show ?thesis
      using mousemove_frame(1) [OF mm] mousemove_frame(2) [OF mm]
        mousemove_frame(6) [OF mm, of m] by blast
  next
    case False
    then have "s' = s"
      using assms by (simp add: step_def)
    then show ?thesis by simp
  qed
  then show "curves s' = curves s"
    and "draggingPoint s \<noteq> Some m \<Longrightarrow> derived_from cfg (points s ! a) (mids s ! m) \<Longrightarrow>
         derived_from cfg (points s' ! a) (mids s' ! m)"
    by simp_all
qed

section \<open>Everything else a tick and a drag leave alone, and the turn of the sweep\<close>

lemma rest_upd_mid: "rest (upd_mid m f s) = rest s"
  by (simp add: rest_def upd_mid_def)

lemma rest_set_movement: "rest (set_movement rnd i d s) = rest s"
  by (simp add: rest_def set_movement_def random_def)

lemma rest_updateMidPoint: "rest (updateMidPoint cfg rnd i s) = rest s"
  by (simp add: updateMidPoint_def update_coordinates_def reverse_direction_def
      update_angle_def Let_def rest_upd_mid rest_set_movement
      split: option.splits prod.splits)

lemma rest_updateMidPoints: "rest (updateMidPoints cfg rnd s) = rest s"
  unfolding updateMidPoints_def
  by (rule fold_invariant [where P = "\<lambda>t. rest t = rest s"]; simp add: rest_updateMidPoint)

lemma rest_restore:
  assumes "rest t = rest s"
  shows "t\<lparr>points := points s, mids := mids s, randomCalls := randomCalls s\<rparr> = s"
proof -
  have "t\<lparr>points := points s, mids := mids s, randomCalls := randomCalls s\<rparr>
      = (rest t)\<lparr>points := points s, mids := mids s, randomCalls := randomCalls s\<rparr>"
    by (simp add: rest_def)
  also have "\<dots> = (rest s)\<lparr>points := points s, mids := mids s, randomCalls := randomCalls s\<rparr>"
    by (simp only: assms)
  also have "\<dots> = s"
    by (simp add: rest_def)
  finally show ?thesis .
qed

lemma randomCalls_updateMidPoint:
  "randomCalls s \<le> randomCalls (updateMidPoint cfg rnd i s)
   \<and> randomCalls (updateMidPoint cfg rnd i s) \<le> Suc (randomCalls s)"
  by (simp add: updateMidPoint_def update_coordinates_simps update_angle_simps
      reverse_direction_def set_movement_simps split: option.splits prod.splits)

lemma randomCalls_updateMidPoints:
  "randomCalls s \<le> randomCalls (updateMidPoints cfg rnd s)
   \<and> randomCalls (updateMidPoints cfg rnd s) \<le> randomCalls s + length (points s)"
proof -
  let ?P = "\<lambda>k (t::state). randomCalls s \<le> randomCalls t \<and> randomCalls t \<le> randomCalls s + k"
  have "?P (length (points s)) (fold (updateMidPoint cfg rnd) [0..<length (points s)] s)"
  proof (rule fold_upt_invariant [where P = ?P])
    show "?P 0 s" by simp
  next
    fix k and t :: state assume "?P k t"
    then show "?P (Suc k) (updateMidPoint cfg rnd k t)"
      using randomCalls_updateMidPoint [of t cfg rnd k] by linarith
  qed
  then show ?thesis
    by (simp add: updateMidPoints_def)
qed

lemma mousemove_exact:
  assumes "mousemove cfg e s = Inr s'"
  shows "\<exists>d. draggingPoint s = Some d
           \<and> s' = s\<lparr>mids := (mids s)[d := (mids s ! d)
                 \<lparr>mp_x := clientX e - width cfg / 2, mp_y := clientY e - height cfg / 2\<rparr>]\<rparr>"
proof -
  from assms obtain d where d: "draggingPoint s = Some d"
    by (auto simp add: mousemove_def split: option.splits)
  have "s' = s\<lparr>mids := (mids s)[d := (mids s ! d)
                 \<lparr>mp_x := clientX e - width cfg / 2, mp_y := clientY e - height cfg / 2\<rparr>]\<rparr>"
  proof (cases "d < length (mids s)")
    case True
    then show ?thesis
      using assms mousemove_Inr [OF d, of cfg e] by (simp add: upd_mid_def)
  next
    case False
    then show ?thesis
      using assms mousemove_Inr [OF d, of cfg e] by (simp add: upd_mid_def list_update_beyond)
  qed
  with d show ?thesis by blast
qed

lemma sweep_step_second:
  assumes "angle0 w - base0 w = angle1 w - base1 w"
  shows "angle1 (sweep_step L r w) = angle1 w + speed w * 0.02 * direction w
       \<and> base1 (sweep_step L r w) = base1 w
       \<and> (base1 w + L \<le> angle1 (sweep_step L r w) \<longrightarrow> direction (sweep_step L r w) = - 1)
       \<and> (angle1 (sweep_step L r w) < base1 w + L \<longrightarrow>
            angle1 (sweep_step L r w) \<le> base1 w - L \<longrightarrow> direction (sweep_step L r w) = 1)
       \<and> (base1 w - L < angle1 (sweep_step L r w) \<longrightarrow>
            angle1 (sweep_step L r w) < base1 w + L \<longrightarrow>
            direction (sweep_step L r w) = direction w)"
proof -
  from assms have eq: "angle0 w = angle1 w - base1 w + base0 w"
    by simp
  show ?thesis
    by (simp add: sweep_step_def sweep_turn_def sweep_move_def eq)
qed

lemma sweep_step_first:
  assumes "angle0 w - base0 w = angle1 w - base1 w"
  shows "angle0 (sweep_step L r w) = angle0 w + speed w * 0.02 * direction w
       \<and> base0 (sweep_step L r w) = base0 w
       \<and> (base0 w + L \<le> angle0 (sweep_step L r w) \<longrightarrow> direction (sweep_step L r w) = - 1)
       \<and> (angle0 (sweep_step L r w) < base0 w + L \<longrightarrow>
            angle0 (sweep_step L r w) \<le> base0 w - L \<longrightarrow> direction (sweep_step L r w) = 1)
       \<and> (base0 w - L < angle0 (sweep_step L r w) \<longrightarrow>
            angle0 (sweep_step L r w) < base0 w + L \<longrightarrow>
            direction (sweep_step L r w) = direction w)"
proof -
  from assms have eq: "angle1 w = angle0 w - base0 w + base1 w"
    by simp
  show ?thesis
    by (simp add: sweep_step_def sweep_turn_def sweep_move_def eq)
qed

lemma turn_consequences:
  fixes a' b L d d' :: real
  assumes "b + L \<le> a' \<longrightarrow> d' = - 1"
    and "a' < b + L \<longrightarrow> a' \<le> b - L \<longrightarrow> d' = 1"
    and "b - L < a' \<longrightarrow> a' < b + L \<longrightarrow> d' = d"
  shows "(d = - 1 \<longrightarrow> d' = 1 \<longrightarrow> a' \<le> b - L) \<and> (d = 1 \<longrightarrow> d' = - 1 \<longrightarrow> b + L \<le> a')"
proof (intro conjI impI)
  assume "d = - 1" "d' = 1"
  then show "a' \<le> b - L"
    using assms by (cases "b + L \<le> a'"; cases "b - L < a'") auto
next
  assume "d = 1" "d' = - 1"
  then show "b + L \<le> a'"
    using assms by (cases "b + L \<le> a'"; cases "b - L < a'") auto
qed

lemma step_still:
  assumes "1 \<le> TOTAL_POINTS cfg" "ready cfg s" "step cfg rnd ev s = Inr s'"
    and "\<And>e. ev \<noteq> MouseMove e" and "ev = Frame \<Longrightarrow> \<not> isAnimating s"
  shows "points s' = points s \<and> mids s' = mids s \<and> curves s' = curves s"
proof (cases ev)
  case Frame
  then have "s' = rotate_step rnd s"
    using assms(3,5) render_ready(1) [OF assms(1,2), of rnd]
    by (simp add: step_def rotate_step_simps)
  then show ?thesis
    by (simp add: rotate_step_simps)
next
  case (MouseDown e)
  then show ?thesis
    using assms(3) by (auto simp add: step_def mousedown_def Let_def split: option.splits)
next
  case (MouseMove e)
  then show ?thesis using assms(4) by simp
next
  case MouseUp
  then show ?thesis
    using assms(3) by (auto simp add: step_def mouseup_def)
next
  case (KeyDown c)
  then show ?thesis
    using assms(3) by (auto simp add: step_def keydown_def)
qed

lemma step_mousemove_exact:
  assumes "ready cfg s" "draggingPoint s = Some d"
  shows "step cfg rnd (MouseMove e) s =
     Inr (s\<lparr>mids := (mids s)[d := (mids s ! d)
            \<lparr>mp_x := clientX e - width cfg / 2, mp_y := clientY e - height cfg / 2\<rparr>]\<rparr>)"
proof -
  have l: "dragListeners s"
    using assms by (simp add: ready_def)
  from ready_mousemove [OF assms(1) l, of e] obtain s'
    where s': "mousemove cfg e s = Inr s'" by blast
  from mousemove_exact [OF s'] assms(2) show ?thesis
    using l s' by (simp add: step_def)
qed

lemma step_frame_animating:
  assumes "1 \<le> TOTAL_POINTS cfg" "ready cfg s" "isAnimating s"
  shows "\<exists>s'. step cfg rnd Frame s = Inr s' \<and> control_points_derived cfg s'"
proof -
  let ?s1 = "rotate_step rnd s"
  have r: "render cfg rnd s = Inr (updateMidPoints cfg rnd ?s1)"
    using render_ready(1) [OF assms(1,2), of rnd] assms(3) by (simp add: rotate_step_simps)
  have s1: "shape cfg ?s1"
    using assms(2) shape_cong [of ?s1 s cfg] by (simp add: ready_def rotate_step_simps)
  then have "control_points_derived cfg (updateMidPoints cfg rnd ?s1)"
    by (simp add: updateMidPoints_derived)
  then show ?thesis
    using r by (simp add: step_def)
qed

lemma step_mousemove_idle:
  assumes "ready cfg s" "draggingPoint s = None"
  shows "step cfg rnd (MouseMove e) s = Inr s"
  using assms by (simp add: ready_def step_def)

section \<open>The roundness constant\<close>

text \<open>
  C9. For a point count \<open>N > 0\<close> the roundness constant is \<open>4 * (sqrt 2 - 1) / 3\<close> multiplied
  by \<open>4 / N\<close>, and equally the four-point constant divided by \<open>N / 4\<close>, in exact real
  arithmetic.
\<close>

theorem kappa_scaled:
  assumes "0 < TOTAL_POINTS cfg"
  shows "kappa cfg = 4 * (sqrt 2 - 1) / 3 * (4 / real (TOTAL_POINTS cfg))
       \<and> kappa cfg = (4 * (sqrt 2 - 1) / 3) / (real (TOTAL_POINTS cfg) / 4)"
  using assms by (simp add: kappa_def field_simps)

theorem kappa_scaled_witness:
  "0 < TOTAL_POINTS source_config
   \<and> kappa source_config = 4 * (sqrt 2 - 1) / 3 * (4 / real (TOTAL_POINTS source_config))
   \<and> kappa source_config = (4 * (sqrt 2 - 1) / 3) / (real (TOTAL_POINTS source_config) / 4)"
proof -
  have pos: "0 < TOTAL_POINTS source_config"
    by (simp add: source_config_def)
  show ?thesis
    using pos kappa_scaled [OF pos] by simp
qed

section \<open>Angles and positions of the control points of the built shape\<close>

text \<open>
  C1, as the script has it. Curve \<open>i\<close> of the freshly built shape runs from anchor \<open>i\<close> to
  anchor \<open>(i + 1) mod N\<close>, and anchor \<open>i\<close> is placed at the angle
  \<open>curveStartAngle + i * (2 * pi / N)\<close>. The current angle of the first control point is
  \<open>i * (2 * pi / N)\<close>, which is the placement angle of anchor \<open>i\<close> plus \<open>pi / 2\<close> (not the
  placement angle itself); the current angle of the second control point is
  \<open>((i + 1) mod N) * (2 * pi / N) - pi\<close>, which is the placement angle of anchor
  \<open>(i + 1) mod N\<close> minus \<open>pi / 2\<close> (not minus \<open>pi\<close>). Each control point's position is its
  owning anchor's position plus \<open>R * k * (cos angle, sin angle)\<close>.
\<close>

theorem control_points_placed:
  assumes "i < TOTAL_POINTS cfg"
  shows "let b = build cfg rnd; c = curves b ! i; N = TOTAL_POINTS cfg;
             placement = (\<lambda>j. curveStartAngle + real j * (2 * pi / real N))
         in c0 c = i \<and> c3 c = (i + 1) mod N
          \<and> pt_x (points b ! i) = baseRadius cfg * cos (placement i)
          \<and> pt_y (points b ! i) = baseRadius cfg * sin (placement i)
          \<and> currentAngle (mids b ! c1 c) = real i * (2 * pi / real N)
          \<and> currentAngle (mids b ! c1 c) = placement i + pi / 2
          \<and> currentAngle (mids b ! c2 c) = real ((i + 1) mod N) * (2 * pi / real N) - pi
          \<and> currentAngle (mids b ! c2 c) = placement ((i + 1) mod N) - pi / 2
          \<and> derived_from cfg (points b ! c0 c) (mids b ! c1 c)
          \<and> derived_from cfg (points b ! c3 c) (mids b ! c2 c)"
proof -
  let ?N = "TOTAL_POINTS cfg" and ?b = "build cfg rnd"
  let ?j = "(i + 1) mod ?N"
  have nx: "next_index ?N i = ?j"
    using assms by (auto simp add: next_index_def mod_Suc)
  have j: "?j < ?N"
    using assms by simp
  have c: "curves ?b ! i = \<lparr>c0 = i, c1 = 2 * i, c2 = Suc (2 * i), c3 = ?j\<rparr>"
    using build_curve [OF assms] nx by simp
  have m1: "mids ?b ! (2 * i) = new_midPoint cfg (new_point cfg i) (real i * curveIncrement cfg)"
    by (rule build_mid_first [OF assms])
  have m2: "mids ?b ! Suc (2 * i) =
      new_midPoint cfg (new_point cfg ?j) (real ?j * curveIncrement cfg - pi)"
    using build_mid_second [OF assms] nx by simp
  have px: "pt_x (points ?b ! i) = pt_x (new_point cfg i)"
    "pt_y (points ?b ! i) = pt_y (new_point cfg i)"
    using build_point [OF assms, of rnd] by simp_all
  have pj: "pt_x (points ?b ! ?j) = pt_x (new_point cfg ?j)"
    "pt_y (points ?b ! ?j) = pt_y (new_point cfg ?j)"
    using build_point [OF j, of rnd] by simp_all
  have d1: "derived_from cfg (points ?b ! i) (mids ?b ! (2 * i))"
    unfolding m1 by (rule derived_new_midPoint [OF px])
  have d2: "derived_from cfg (points ?b ! ?j) (mids ?b ! Suc (2 * i))"
    unfolding m2 by (rule derived_new_midPoint [OF pj])
  have a1: "currentAngle (mids ?b ! (2 * i)) = real i * (2 * pi / real ?N)"
    by (simp add: m1 new_midPoint_def curveIncrement_def)
  have a2: "currentAngle (mids ?b ! Suc (2 * i)) = real ?j * (2 * pi / real ?N) - pi"
    by (simp add: m2 new_midPoint_def curveIncrement_def)
  have xy: "pt_x (points ?b ! i) = baseRadius cfg * cos (curveStartAngle + real i * (2 * pi / real ?N))"
    "pt_y (points ?b ! i) = baseRadius cfg * sin (curveStartAngle + real i * (2 * pi / real ?N))"
    by (simp_all add: px new_point_def curveIncrement_def Let_def mult.commute)
  show ?thesis
    unfolding Let_def c curve.simps
    using d1 d2 a1 a2 xy by (simp add: curveStartAngle_def)
qed

theorem control_points_placed_witness:
  "(0::nat) < TOTAL_POINTS source_config
   \<and> currentAngle (mids (build source_config (steady 0))
        ! c1 (curves (build source_config (steady 0)) ! 0)) = 0
   \<and> currentAngle (mids (build source_config (steady 0))
        ! c2 (curves (build source_config (steady 0)) ! 0))
       = 1 * (2 * pi / 5) - pi"
proof -
  have h: "(0::nat) < TOTAL_POINTS source_config"
    by (simp add: source_config_def)
  have N: "TOTAL_POINTS source_config = 5"
    by (simp add: source_config_def)
  show ?thesis
    using h control_points_placed [OF h, of "steady 0"]
    by (simp add: Let_def N)
qed

text \<open>
  In the script's own shape the first control point of curve 0 has the current angle 0,
  while anchor 0 is placed at \<open>- pi / 2\<close>; and the second has the current angle
  \<open>2 * pi / 5 - pi\<close>, while anchor 1 is placed at \<open>- pi / 2 + 2 * pi / 5\<close>.
\<close>

theorem first_control_angle_not_placement:
  "currentAngle (mids (build source_config (steady 0))
      ! c1 (curves (build source_config (steady 0)) ! 0))
   \<noteq> curveStartAngle + real (0::nat) * (2 * pi / real (TOTAL_POINTS source_config))
   \<and> currentAngle (mids (build source_config (steady 0))
      ! c2 (curves (build source_config (steady 0)) ! 0))
   \<noteq> (curveStartAngle + real (1::nat) * (2 * pi / real (TOTAL_POINTS source_config))) - pi"
proof -
  have "(0::nat) < TOTAL_POINTS source_config" and N: "TOTAL_POINTS source_config = 5"
    by (simp_all add: source_config_def)
  then show ?thesis
    using build_curve [of 0 source_config "steady 0"]
      build_mid_first [of 0 source_config "steady 0"]
      build_mid_second [of 0 source_config "steady 0"]
    by (simp add: new_midPoint_def curveStartAngle_def next_index_def curveIncrement_def)
qed

section \<open>The derivation formula as an invariant\<close>

text \<open>
  C2, as the script has it. After a successful load and any sequence of frames, pointer
  events and key presses the handlers have not thrown, and in the state \<open>s\<close> reached:
  right after the load every control point matches the derivation formula; an oscillation
  tick from \<open>s\<close> makes every control point match it, whatever was dragged before; every
  event other than a pointer move keeps the formula when it holds in \<open>s\<close>; a pointer
  move keeps it for every control point but the captured one; while a control point is
  captured, a pointer move puts it at the pointer's position in shape-centred coordinates
  and changes nothing else, and while none is captured a pointer move changes nothing;
  every event that is neither a pointer move nor a frame with the animation on leaves
  every anchor, every control point and every curve as it was; and a frame with the
  animation on makes every control point match the formula. So the release of a drag
  moves no control point, and a dragged control point comes back onto the formula only
  by a frame with the animation on, or by a pointer move that puts it there.
\<close>

theorem derivation_restored_by_tick:
  assumes "1 \<le> TOTAL_POINTS cfg"
  shows "\<exists>s. session cfg rnd evs = Inr s
           \<and> (evs = [] \<longrightarrow> control_points_derived cfg s)
           \<and> control_points_derived cfg (updateMidPoints cfg rnd s)
           \<and> (\<forall>ev. (\<forall>e. ev \<noteq> MouseMove e) \<longrightarrow> control_points_derived cfg s \<longrightarrow>
                 (\<exists>s'. step cfg rnd ev s = Inr s' \<and> control_points_derived cfg s'))
           \<and> (\<forall>e. \<exists>s'. step cfg rnd (MouseMove e) s = Inr s' \<and> curves s' = curves s
                 \<and> (\<forall>a m. draggingPoint s \<noteq> Some m \<longrightarrow>
                       derived_from cfg (points s ! a) (mids s ! m) \<longrightarrow>
                       derived_from cfg (points s' ! a) (mids s' ! m)))
           \<and> (\<forall>e d. draggingPoint s = Some d \<longrightarrow>
                 step cfg rnd (MouseMove e) s =
                   Inr (s\<lparr>mids := (mids s)[d := (mids s ! d)
                          \<lparr>mp_x := clientX e - width cfg / 2,
                            mp_y := clientY e - height cfg / 2\<rparr>]\<rparr>))
           \<and> (\<forall>ev s'. step cfg rnd ev s = Inr s' \<longrightarrow> (\<forall>e. ev \<noteq> MouseMove e) \<longrightarrow>
                 (ev = Frame \<longrightarrow> \<not> isAnimating s) \<longrightarrow>
                 points s' = points s \<and> mids s' = mids s \<and> curves s' = curves s)
           \<and> (\<forall>e. draggingPoint s = None \<longrightarrow> step cfg rnd (MouseMove e) s = Inr s)
           \<and> (isAnimating s \<longrightarrow>
                 (\<exists>s'. step cfg rnd Frame s = Inr s' \<and> control_points_derived cfg s'))"
proof -
  from ready_session [OF assms] obtain s
    where s: "session cfg rnd evs = Inr s" "ready cfg s" by blast
  have fresh: "evs = [] \<longrightarrow> control_points_derived cfg s"
    using s(1) assms by (auto simp add: session_def window_onload_eq derived_build)
  have tick: "control_points_derived cfg (updateMidPoints cfg rnd s)"
    using s(2) by (simp add: ready_def updateMidPoints_derived)
  have other: "\<forall>ev. (\<forall>e. ev \<noteq> MouseMove e) \<longrightarrow> control_points_derived cfg s \<longrightarrow>
                 (\<exists>s'. step cfg rnd ev s = Inr s' \<and> control_points_derived cfg s')"
    using derived_step [OF assms s(2)] by blast
  have move: "\<forall>e. \<exists>s'. step cfg rnd (MouseMove e) s = Inr s' \<and> curves s' = curves s
                 \<and> (\<forall>a m. draggingPoint s \<noteq> Some m \<longrightarrow>
                       derived_from cfg (points s ! a) (mids s ! m) \<longrightarrow>
                       derived_from cfg (points s' ! a) (mids s' ! m))"
  proof
    fix e
    from ready_step [OF assms s(2), of rnd "MouseMove e"] obtain s'
      where s': "step cfg rnd (MouseMove e) s = Inr s'" by blast
    show "\<exists>s'. step cfg rnd (MouseMove e) s = Inr s' \<and> curves s' = curves s
                 \<and> (\<forall>a m. draggingPoint s \<noteq> Some m \<longrightarrow>
                       derived_from cfg (points s ! a) (mids s ! m) \<longrightarrow>
                       derived_from cfg (points s' ! a) (mids s' ! m))"
      using s' step_mousemove_others [OF s'] by blast
  qed
  have exact: "\<forall>e d. draggingPoint s = Some d \<longrightarrow>
                 step cfg rnd (MouseMove e) s =
                   Inr (s\<lparr>mids := (mids s)[d := (mids s ! d)
                          \<lparr>mp_x := clientX e - width cfg / 2,
                            mp_y := clientY e - height cfg / 2\<rparr>]\<rparr>)"
    using step_mousemove_exact [OF s(2)] by blast
  have still: "\<forall>ev s'. step cfg rnd ev s = Inr s' \<longrightarrow> (\<forall>e. ev \<noteq> MouseMove e) \<longrightarrow>
                 (ev = Frame \<longrightarrow> \<not> isAnimating s) \<longrightarrow>
                 points s' = points s \<and> mids s' = mids s \<and> curves s' = curves s"
    using step_still [OF assms s(2)] by blast
  have idle: "\<forall>e. draggingPoint s = None \<longrightarrow> step cfg rnd (MouseMove e) s = Inr s"
    using step_mousemove_idle [OF s(2)] by blast
  have anim: "isAnimating s \<longrightarrow>
                 (\<exists>s'. step cfg rnd Frame s = Inr s' \<and> control_points_derived cfg s')"
    using step_frame_animating [OF assms s(2)] by blast
  show ?thesis
    by (intro exI [of _ s] conjI s(1) fresh tick other move exact still idle anim)
qed

theorem derivation_restored_by_tick_witness:
  "1 \<le> TOTAL_POINTS source_config
   \<and> (\<exists>s. session source_config (steady 0) [] = Inr s
          \<and> control_points_derived source_config s
          \<and> control_points_derived source_config (updateMidPoints source_config (steady 0) s)
          \<and> (\<exists>s'. step source_config (steady 0) (KeyDown 65) s = Inr s'
                \<and> control_points_derived source_config s'
                \<and> points s' = points s \<and> mids s' = mids s \<and> curves s' = curves s))
   \<and> (\<exists>s. session source_config (steady 0)
              [MouseDown \<lparr>clientX = 250 * kappa source_config + 500, clientY = 150\<rparr>] = Inr s
          \<and> draggingPoint s = Some 0
          \<and> step source_config (steady 0) (MouseMove \<lparr>clientX = 500, clientY = 400\<rparr>) s
              = Inr (s\<lparr>mids := (mids s)[0 := (mids s ! 0)\<lparr>mp_x := 0, mp_y := 0\<rparr>]\<rparr>))"
proof -
  have h: "1 \<le> TOTAL_POINTS source_config"
    by (simp add: source_config_def)
  from derivation_restored_by_tick [OF h, of "steady 0" "[]"] obtain s
    where s: "session source_config (steady 0) [] = Inr s"
      "control_points_derived source_config s"
      "control_points_derived source_config (updateMidPoints source_config (steady 0) s)"
      "\<forall>ev. (\<forall>e. ev \<noteq> MouseMove e) \<longrightarrow> control_points_derived source_config s \<longrightarrow>
         (\<exists>s'. step source_config (steady 0) ev s = Inr s'
            \<and> control_points_derived source_config s')"
      "\<forall>ev s'. step source_config (steady 0) ev s = Inr s' \<longrightarrow> (\<forall>e. ev \<noteq> MouseMove e) \<longrightarrow>
         (ev = Frame \<longrightarrow> \<not> isAnimating s) \<longrightarrow>
         points s' = points s \<and> mids s' = mids s \<and> curves s' = curves s"
    by blast
  have k: "\<forall>e. KeyDown 65 \<noteq> MouseMove e" "KeyDown 65 = Frame \<longrightarrow> \<not> isAnimating s"
    by simp_all
  with s(2,4) obtain s' where s': "step source_config (steady 0) (KeyDown 65) s = Inr s'"
      "control_points_derived source_config s'"
    by blast
  from s(5) s'(1) k have "points s' = points s \<and> mids s' = mids s \<and> curves s' = curves s"
    by blast
  with s' have first: "\<exists>s'. step source_config (steady 0) (KeyDown 65) s = Inr s'
                \<and> control_points_derived source_config s'
                \<and> points s' = points s \<and> mids s' = mids s \<and> curves s' = curves s"
    by blast
  let ?down = "[MouseDown \<lparr>clientX = 250 * kappa source_config + 500, clientY = 150\<rparr>]"
  let ?e = "\<lparr>clientX = 500, clientY = 400\<rparr>"
  from derivation_restored_by_tick [OF h, of "steady 0" ?down] obtain t
    where t: "session source_config (steady 0) ?down = Inr t"
      "\<forall>e d. draggingPoint t = Some d \<longrightarrow>
         step source_config (steady 0) (MouseMove e) t =
           Inr (t\<lparr>mids := (mids t)[d := (mids t ! d)
                  \<lparr>mp_x := clientX e - width source_config / 2,
                    mp_y := clientY e - height source_config / 2\<rparr>]\<rparr>)"
    by blast
  have "session source_config (steady 0) ?down = Inr grabbed_shape"
    using h by (simp add: session_def window_onload_eq step_def grabbed_shape_def)
  with t(1) have tg: "t = grabbed_shape"
    by simp
  then have d: "draggingPoint t = Some 0"
    by (simp add: grabbed_shape_eq)
  with t(2) have "step source_config (steady 0) (MouseMove ?e) t =
           Inr (t\<lparr>mids := (mids t)[0 := (mids t ! 0)
                  \<lparr>mp_x := clientX ?e - width source_config / 2,
                    mp_y := clientY ?e - height source_config / 2\<rparr>]\<rparr>)"
    by blast
  then have "step source_config (steady 0) (MouseMove ?e) t
              = Inr (t\<lparr>mids := (mids t)[0 := (mids t ! 0)\<lparr>mp_x := 0, mp_y := 0\<rparr>]\<rparr>)"
    by (simp add: source_config_def)
  with t(1) d have second: "\<exists>s. session source_config (steady 0) ?down = Inr s
          \<and> draggingPoint s = Some 0
          \<and> step source_config (steady 0) (MouseMove ?e) s
              = Inr (s\<lparr>mids := (mids s)[0 := (mids s ! 0)\<lparr>mp_x := 0, mp_y := 0\<rparr>]\<rparr>)"
    by blast
  from s(1,2,3) first have one: "\<exists>s. session source_config (steady 0) [] = Inr s
          \<and> control_points_derived source_config s
          \<and> control_points_derived source_config (updateMidPoints source_config (steady 0) s)
          \<and> (\<exists>s'. step source_config (steady 0) (KeyDown 65) s = Inr s'
                \<and> control_points_derived source_config s'
                \<and> points s' = points s \<and> mids s' = mids s \<and> curves s' = curves s)"
    by blast
  show ?thesis
    by (intro conjI h one second)
qed

text \<open>
  After the drag and the release no control point is captured, and the dragged control
  point lies at the centre of the shape, with its angle still 0: it does not match the
  formula.
\<close>

theorem release_leaves_position:
  "\<not> isl (session source_config (steady 0) drag_and_release)
   \<and> draggingPoint (projr (session source_config (steady 0) drag_and_release)) = None
   \<and> \<not> control_points_derived source_config
         (projr (session source_config (steady 0) drag_and_release))"
proof -
  let ?b = "build source_config (steady 0)"
  let ?s = "mouseup
      (upd_mid 0 (\<lambda>m. m\<lparr>mp_y := 400 - height source_config / 2\<rparr>)
        (upd_mid 0 (\<lambda>m. m\<lparr>mp_x := 500 - width source_config / 2\<rparr>)
          (?b\<lparr>draggingPoint := Some 0, dragListeners := True\<rparr>)))"
  have N: "TOTAL_POINTS source_config = 5"
    by (simp add: source_config_def)
  have run: "session source_config (steady 0) drag_and_release = Inr ?s"
    by (simp add: session_def window_onload_eq N drag_and_release_def step_def source_grab
        mousemove_def Let_def upd_mid_simps)
  have c: "\<lparr>c0 = 0, c1 = 0, c2 = Suc 0, c3 = 1\<rparr> \<in> set (curves ?s)"
  proof -
    have "curves ?s = curves ?b"
      by (simp add: mouseup_def upd_mid_simps)
    moreover have "\<lparr>c0 = 0, c1 = 0, c2 = Suc 0, c3 = 1\<rparr> \<in> set (curves ?b)"
      by (subst source_first_curve [of "steady 0"]) simp
    ultimately show ?thesis
      by simp
  qed
  have m: "mp_x (mids ?s ! 0) = 0" "currentAngle (mids ?s ! 0) = 0"
    by (simp_all add: mouseup_def upd_mid_simps build_length_mids N source_first_mid)
       (simp_all add: source_config_def)
  have p: "pt_x (points ?s ! 0) = 0"
    using build_point [of 0 source_config "steady 0"]
    by (simp add: mouseup_def upd_mid_simps N new_point_def Let_def curveStartAngle_def)
  have "\<not> derived_from source_config (points ?s ! 0) (mids ?s ! 0)"
    using kappa_source_pos by (simp add: derived_from_def m p) (simp add: source_config_def)
  then have "\<not> control_points_derived source_config ?s"
    using c unfolding control_points_derived_def by force
  moreover have "draggingPoint ?s = None"
    by (simp add: mouseup_def)
  ultimately show ?thesis
    by (simp add: run)
qed

section \<open>Construction and its configuration\<close>

text \<open>
  C3, as the script has it. Construction validates nothing. \<^verbatim>\<open>window.onload\<close> fails only for
  the point count 0, with the TypeError of the first frame, and for every other
  configuration (whatever the radius) it returns the complete shape: \<open>N\<close> anchors, \<open>N\<close>
  curves and \<open>2 * N\<close> control points. The roundness constant is positive for every point
  count but 0.
\<close>

theorem onload_without_validation:
  "window_onload cfg rnd =
     (if TOTAL_POINTS cfg = 0 then Inl TypeError else Inr (build cfg rnd))
   \<and> length (points (build cfg rnd)) = TOTAL_POINTS cfg
   \<and> length (curves (build cfg rnd)) = TOTAL_POINTS cfg
   \<and> length (mids (build cfg rnd)) = 2 * TOTAL_POINTS cfg
   \<and> (0 < TOTAL_POINTS cfg \<longrightarrow> 0 < kappa cfg)"
  by (simp add: window_onload_eq build_length_points build_length_curves build_length_mids
      kappa_def)

theorem onload_without_validation_witness:
  "0 < TOTAL_POINTS source_config
   \<and> window_onload source_config (steady 0) = Inr (build source_config (steady 0))
   \<and> length (points (build source_config (steady 0))) = 5
   \<and> 0 < kappa source_config"
proof -
  have h: "0 < TOTAL_POINTS source_config" and N: "TOTAL_POINTS source_config = 5"
    by (simp_all add: source_config_def)
  show ?thesis
    using h onload_without_validation [of source_config "steady 0"]
    by (simp add: N)
qed

text \<open>With two points and the radius \<open>- 1\<close> the load succeeds and the shape has two curves.\<close>

theorem unchecked_config_accepted:
  "TOTAL_POINTS unchecked_config < 3 \<and> baseRadius unchecked_config \<le> 0
   \<and> \<not> isl (window_onload unchecked_config (steady 0))
   \<and> length (points (projr (window_onload unchecked_config (steady 0)))) = 2
   \<and> length (curves (projr (window_onload unchecked_config (steady 0)))) = 2"
  by (simp add: window_onload_eq build_length_points build_length_curves)
     (simp add: unchecked_config_def)

section \<open>The closed loop\<close>

text \<open>
  C5. The built shape has exactly \<open>N\<close> anchors and \<open>N\<close> curves; curve \<open>i\<close> starts at anchor
  \<open>i\<close> and ends at anchor \<open>(i + 1) mod N\<close>, the very anchor curve \<open>(i + 1) mod N\<close> starts at;
  and anchor \<open>i\<close> lies on the circle of radius \<open>R\<close> at the angle \<open>- pi / 2 + i * (2 * pi / N)\<close>,
  so the loop runs clockwise from the top in the canvas's coordinates.
\<close>

theorem closed_loop:
  assumes "i < TOTAL_POINTS cfg"
  shows "length (points (build cfg rnd)) = TOTAL_POINTS cfg
       \<and> length (curves (build cfg rnd)) = TOTAL_POINTS cfg
       \<and> c0 (curves (build cfg rnd) ! i) = i
       \<and> c3 (curves (build cfg rnd) ! i) = (i + 1) mod TOTAL_POINTS cfg
       \<and> c3 (curves (build cfg rnd) ! i)
           = c0 (curves (build cfg rnd) ! ((i + 1) mod TOTAL_POINTS cfg))
       \<and> pt_x (points (build cfg rnd) ! i)
           = baseRadius cfg * cos (- pi / 2 + real i * (2 * pi / real (TOTAL_POINTS cfg)))
       \<and> pt_y (points (build cfg rnd) ! i)
           = baseRadius cfg * sin (- pi / 2 + real i * (2 * pi / real (TOTAL_POINTS cfg)))"
proof -
  have nx: "next_index (TOTAL_POINTS cfg) i = (i + 1) mod TOTAL_POINTS cfg"
    using assms by (auto simp add: next_index_def mod_Suc)
  have j: "(i + 1) mod TOTAL_POINTS cfg < TOTAL_POINTS cfg"
    using assms by simp
  show ?thesis
    using build_curve [OF assms, of rnd] build_curve [OF j, of rnd] nx
      build_anchor_position [OF assms, of rnd]
    by (simp add: build_length_points build_length_curves curveStartAngle_def)
qed

theorem closed_loop_witness:
  "(4::nat) < TOTAL_POINTS source_config
   \<and> length (points (build source_config (steady 0))) = 5
   \<and> length (curves (build source_config (steady 0))) = 5
   \<and> c3 (curves (build source_config (steady 0)) ! 4) = 0
   \<and> c0 (curves (build source_config (steady 0)) ! 0) = 0"
proof -
  have h: "(4::nat) < TOTAL_POINTS source_config" and h0: "(0::nat) < TOTAL_POINTS source_config"
    by (simp_all add: source_config_def)
  have N: "TOTAL_POINTS source_config = 5"
    by (simp add: source_config_def)
  show ?thesis
    using h closed_loop [OF h, of "steady 0"] closed_loop [OF h0, of "steady 0"]
    by (simp add: N)
qed

section \<open>The pairing\<close>

text \<open>
  C6. Anchor \<open>i\<close> of the built shape is paired with the second control point of curve
  \<open>(i - 1) mod N\<close>, the curve that ends at anchor \<open>i\<close>, and the first control point of curve
  \<open>i\<close>, the curve that starts there; the two are different objects; and after any number
  \<open>n\<close> of oscillation ticks the anchor's pairing and the curves are the same.
\<close>

theorem pairing_stable:
  assumes "i < TOTAL_POINTS cfg"
  shows "let N = TOTAL_POINTS cfg; b = build cfg rnd;
             s = (updateMidPoints cfg rnd ^^ n) b;
             before = (i + N - 1) mod N
         in midPointConnections (points b ! i)
              = Some (c2 (curves b ! before), c1 (curves b ! i))
          \<and> c3 (curves b ! before) = i \<and> c0 (curves b ! i) = i
          \<and> c2 (curves b ! before) \<noteq> c1 (curves b ! i)
          \<and> midPointConnections (points s ! i) = midPointConnections (points b ! i)
          \<and> curves s = curves b"
proof -
  let ?N = "TOTAL_POINTS cfg"
  have p: "prev_index ?N i < ?N"
    using assms by (rule index_bounds)
  have pm: "(i + ?N - 1) mod ?N = prev_index ?N i"
    using prev_index_mod [OF assms] by simp
  have "Suc (2 * prev_index ?N i) \<noteq> 2 * i"
    by presburger
  then show ?thesis
    unfolding Let_def pm
    using assms
    by (simp add: ticks_frame build_curve [OF assms] build_curve [OF p] build_point [OF assms]
        next_prev)
qed

theorem pairing_stable_witness:
  "(0::nat) < TOTAL_POINTS source_config
   \<and> midPointConnections (points (build source_config (steady 0)) ! 0)
       = Some (c2 (curves (build source_config (steady 0)) ! 4),
               c1 (curves (build source_config (steady 0)) ! 0))
   \<and> midPointConnections
        (points ((updateMidPoints source_config (steady 0) ^^ 3) (build source_config (steady 0))) ! 0)
       = midPointConnections (points (build source_config (steady 0)) ! 0)"
proof -
  have h: "(0::nat) < TOTAL_POINTS source_config"
    by (simp add: source_config_def)
  have N: "TOTAL_POINTS source_config = 5"
    by (simp add: source_config_def)
  show ?thesis
    using h pairing_stable [OF h, of "steady 0" 3]
    by (simp add: Let_def N)
qed

section \<open>The hit test\<close>

text \<open>
  C7. \<^verbatim>\<open>mousedown\<close> translates the pointer position into shape-centred coordinates and
  captures the control point the hit test of the specification returns there; when the
  hit test returns none the state is unchanged and nothing is captured.
\<close>

theorem mousedown_first_hit:
  "mousedown cfg e s =
     (case hit_test (clientX e - width cfg / 2) (clientY e - height cfg / 2) s of
        None \<Rightarrow> s
      | Some m \<Rightarrow> s\<lparr>draggingPoint := Some m, dragListeners := True\<rparr>)"
  by (simp add: mousedown_def hit_test_def scan_curves_find)

theorem mousedown_first_hit_witness:
  "mousedown source_config \<lparr>clientX = 250 * kappa source_config + 500, clientY = 150\<rparr>
     (build source_config (steady 0))
   = (case hit_test (250 * kappa source_config) (- 250) (build source_config (steady 0)) of
        None \<Rightarrow> build source_config (steady 0)
      | Some m \<Rightarrow> (build source_config (steady 0))\<lparr>draggingPoint := Some m, dragListeners := True\<rparr>)
   \<and> mousedown source_config \<lparr>clientX = 250 * kappa source_config + 500, clientY = 150\<rparr>
     (build source_config (steady 0))
   = (build source_config (steady 0))\<lparr>draggingPoint := Some 0, dragListeners := True\<rparr>"
  using mousedown_first_hit [of source_config
      "\<lparr>clientX = 250 * kappa source_config + 500, clientY = 150\<rparr>" "build source_config (steady 0)"]
  by (simp add: source_grab) (simp add: source_config_def)

section \<open>Dragging\<close>

text \<open>
  C8. While the control point \<open>d\<close> is captured, a pointer move to the surface position
  \<open>(px, py)\<close> does not throw and sets the position of \<open>d\<close> to
  \<open>(px - width / 2, py - height / 2)\<close>, whatever its position was.
\<close>

theorem drag_sets_position:
  assumes "draggingPoint s = Some d" "d < length (mids s)"
  shows "\<exists>s'. mousemove cfg \<lparr>clientX = px, clientY = py\<rparr> s = Inr s'
           \<and> mp_x (mids s' ! d) = px - width cfg / 2
           \<and> mp_y (mids s' ! d) = py - height cfg / 2"
  using assms by (simp add: mousemove_def Let_def upd_mid_simps)

theorem drag_sets_position_witness:
  "draggingPoint ((build source_config (steady 0))\<lparr>draggingPoint := Some 0, dragListeners := True\<rparr>) = Some 0
   \<and> 0 < length (mids ((build source_config (steady 0))\<lparr>draggingPoint := Some 0, dragListeners := True\<rparr>))
   \<and> (\<exists>s'. mousemove source_config \<lparr>clientX = 500, clientY = 400\<rparr>
          ((build source_config (steady 0))\<lparr>draggingPoint := Some 0, dragListeners := True\<rparr>) = Inr s'
         \<and> mp_x (mids s' ! 0) = 0 \<and> mp_y (mids s' ! 0) = 0)"
proof -
  let ?s = "(build source_config (steady 0))\<lparr>draggingPoint := Some 0, dragListeners := True\<rparr>"
  have d: "draggingPoint ?s = Some 0" by simp
  have l: "0 < length (mids ?s)"
    by (simp add: build_length_mids source_config_def)
  show ?thesis
    using d l drag_sets_position [OF d l, of source_config 500 400]
    by (simp add: source_config_def)
qed

section \<open>Frame conditions\<close>

text \<open>
  C10. An oscillation tick leaves the position of every anchor, the base angle of every
  control point, every anchor's pairing and the curves as they were, and every component
  of the state other than the anchors, the control points and the count of random numbers
  drawn; it draws at most one random number for each anchor. So of an anchor it can only
  change the sweep direction and speed, and of a control point the current angle and the
  position. A pointer move that does not throw leaves the anchors and the curves as they
  were, the base angle and the current angle of every control point too, and changes no
  control point but the captured one: the state after it is the state before it with the
  position of the captured control point set to the pointer's position in shape-centred
  coordinates.
\<close>

theorem tick_and_drag_frame:
  "map pt_x (points (updateMidPoints cfg rnd s)) = map pt_x (points s)
   \<and> map pt_y (points (updateMidPoints cfg rnd s)) = map pt_y (points s)
   \<and> map baseAngle (mids (updateMidPoints cfg rnd s)) = map baseAngle (mids s)
   \<and> map midPointConnections (points (updateMidPoints cfg rnd s))
       = map midPointConnections (points s)
   \<and> curves (updateMidPoints cfg rnd s) = curves s
   \<and> (updateMidPoints cfg rnd s)
         \<lparr>points := points s, mids := mids s, randomCalls := randomCalls s\<rparr> = s
   \<and> randomCalls s \<le> randomCalls (updateMidPoints cfg rnd s)
   \<and> randomCalls (updateMidPoints cfg rnd s) \<le> randomCalls s + length (points s)
   \<and> (\<forall>s'. mousemove cfg e s = Inr s' \<longrightarrow>
         points s' = points s \<and> curves s' = curves s
         \<and> map baseAngle (mids s') = map baseAngle (mids s)
         \<and> map currentAngle (mids s') = map currentAngle (mids s)
         \<and> length (mids s') = length (mids s)
         \<and> (\<forall>m. draggingPoint s \<noteq> Some m \<longrightarrow> mids s' ! m = mids s ! m)
         \<and> (\<exists>d. draggingPoint s = Some d
               \<and> s' = s\<lparr>mids := (mids s)[d := (mids s ! d)
                     \<lparr>mp_x := clientX e - width cfg / 2,
                       mp_y := clientY e - height cfg / 2\<rparr>]\<rparr>))"
proof -
  have tick: "map pt_x (points (updateMidPoints cfg rnd s)) = map pt_x (points s)"
    "map pt_y (points (updateMidPoints cfg rnd s)) = map pt_y (points s)"
    "map midPointConnections (points (updateMidPoints cfg rnd s))
       = map midPointConnections (points s)"
    "map baseAngle (mids (updateMidPoints cfg rnd s)) = map baseAngle (mids s)"
    by (rule nth_equalityI;
        simp add: updateMidPoints_frame updateMidPoints_point updateMidPoints_baseAngle)+
  have others: "(updateMidPoints cfg rnd s)
         \<lparr>points := points s, mids := mids s, randomCalls := randomCalls s\<rparr> = s"
    by (rule rest_restore [OF rest_updateMidPoints])
  have drag: "points s' = points s \<and> curves s' = curves s
         \<and> map baseAngle (mids s') = map baseAngle (mids s)
         \<and> map currentAngle (mids s') = map currentAngle (mids s)
         \<and> length (mids s') = length (mids s)
         \<and> (\<forall>m. draggingPoint s \<noteq> Some m \<longrightarrow> mids s' ! m = mids s ! m)
         \<and> (\<exists>d. draggingPoint s = Some d
               \<and> s' = s\<lparr>mids := (mids s)[d := (mids s ! d)
                     \<lparr>mp_x := clientX e - width cfg / 2,
                       mp_y := clientY e - height cfg / 2\<rparr>]\<rparr>)"
    if mm: "mousemove cfg e s = Inr s'" for s'
  proof -
    have "map baseAngle (mids s') = map baseAngle (mids s)"
      "map currentAngle (mids s') = map currentAngle (mids s)"
      by (rule nth_equalityI; simp add: mousemove_frame [OF mm])+
    then show ?thesis
      using mousemove_frame(1,2,3) [OF mm] mousemove_frame(6) [OF mm] mousemove_exact [OF mm]
      by blast
  qed
  then have drag': "\<forall>s'. mousemove cfg e s = Inr s' \<longrightarrow>
         points s' = points s \<and> curves s' = curves s
         \<and> map baseAngle (mids s') = map baseAngle (mids s)
         \<and> map currentAngle (mids s') = map currentAngle (mids s)
         \<and> length (mids s') = length (mids s)
         \<and> (\<forall>m. draggingPoint s \<noteq> Some m \<longrightarrow> mids s' ! m = mids s ! m)
         \<and> (\<exists>d. draggingPoint s = Some d
               \<and> s' = s\<lparr>mids := (mids s)[d := (mids s ! d)
                     \<lparr>mp_x := clientX e - width cfg / 2,
                       mp_y := clientY e - height cfg / 2\<rparr>]\<rparr>)"
    by blast
  show ?thesis
    by (intro conjI tick updateMidPoints_frame others drag'
        conjunct1 [OF randomCalls_updateMidPoints] conjunct2 [OF randomCalls_updateMidPoints])
qed

theorem tick_and_drag_frame_witness:
  "map pt_x (points (updateMidPoints source_config (steady 0) grabbed_shape))
     = map pt_x (points grabbed_shape)
   \<and> map baseAngle (mids (updateMidPoints source_config (steady 0) grabbed_shape))
     = map baseAngle (mids grabbed_shape)
   \<and> (updateMidPoints source_config (steady 0) grabbed_shape)
         \<lparr>points := points grabbed_shape, mids := mids grabbed_shape,
           randomCalls := randomCalls grabbed_shape\<rparr> = grabbed_shape
   \<and> (\<exists>s'. mousemove source_config \<lparr>clientX = 500, clientY = 400\<rparr> grabbed_shape = Inr s'
         \<and> points s' = points grabbed_shape
         \<and> map baseAngle (mids s') = map baseAngle (mids grabbed_shape)
         \<and> draggingPoint grabbed_shape = Some 0
         \<and> s' = grabbed_shape\<lparr>mids := (mids grabbed_shape)[0 := (mids grabbed_shape ! 0)
                     \<lparr>mp_x := 0, mp_y := 0\<rparr>]\<rparr>)"
proof -
  let ?e = "\<lparr>clientX = 500, clientY = 400\<rparr>"
  note t = tick_and_drag_frame [of source_config "steady 0" grabbed_shape ?e]
  note rest = t [THEN conjunct2, THEN conjunct2]
  note tick = t [THEN conjunct1] rest [THEN conjunct1]
    rest [THEN conjunct2, THEN conjunct2, THEN conjunct2, THEN conjunct1]
  note drags = rest [THEN conjunct2, THEN conjunct2, THEN conjunct2, THEN conjunct2,
    THEN conjunct2, THEN conjunct2]
  obtain s' where s': "mousemove source_config ?e grabbed_shape = Inr s'"
    by (simp add: grabbed_shape_eq mousemove_def Let_def)
  note dr = drags [THEN spec, THEN mp, OF s']
  note a = dr [THEN conjunct1] dr [THEN conjunct2, THEN conjunct2, THEN conjunct1]
  note ex = dr [THEN conjunct2, THEN conjunct2, THEN conjunct2, THEN conjunct2, THEN conjunct2,
    THEN conjunct2]
  have d: "draggingPoint grabbed_shape = Some 0"
    by (simp add: grabbed_shape_eq)
  from ex obtain d' where d': "draggingPoint grabbed_shape = Some d'"
    and eq: "s' = grabbed_shape\<lparr>mids := (mids grabbed_shape)[d' := (mids grabbed_shape ! d')
           \<lparr>mp_x := clientX ?e - width source_config / 2,
             mp_y := clientY ?e - height source_config / 2\<rparr>]\<rparr>"
    by (elim exE conjE)
  from d d' have "d' = 0"
    by simp
  then have "s' = grabbed_shape\<lparr>mids := (mids grabbed_shape)[0 := (mids grabbed_shape ! 0)
                     \<lparr>mp_x := 0, mp_y := 0\<rparr>]\<rparr>"
    using eq by (simp add: source_config_def)
  then have drag: "\<exists>s'. mousemove source_config ?e grabbed_shape = Inr s'
         \<and> points s' = points grabbed_shape
         \<and> map baseAngle (mids s') = map baseAngle (mids grabbed_shape)
         \<and> draggingPoint grabbed_shape = Some 0
         \<and> s' = grabbed_shape\<lparr>mids := (mids grabbed_shape)[0 := (mids grabbed_shape ! 0)
                     \<lparr>mp_x := 0, mp_y := 0\<rparr>]\<rparr>"
    by (intro exI [of _ s'] conjI s' a d)
  show ?thesis
    by (intro conjI tick drag)
qed

section \<open>The bounded oscillation\<close>

text \<open>
  C4, as the script has it. Let the maximum sweep be positive and every random number lie
  in \<open>[0, 1)\<close>. In the built shape every paired control point \<open>m\<close> of anchor \<open>i\<close> is at its
  base angle and the direction is forward (1). After any number \<open>n\<close> of oscillation ticks
  the direction is 1 or - 1, the base angle is what it was, and for the current angle \<open>a\<close>
  and the base angle \<open>b\<close> of \<open>m\<close>: \<open>a < b + maxSweep\<close> while the direction is forward,
  \<open>b - maxSweep < a\<close> while it is backward, and always
  \<open>b - maxSweep - 0.02 < a < b + maxSweep + 0.02\<close>. The next tick, with the speed \<open>v\<close> of the
  anchor in \<open>[0, 1)\<close> and its direction \<open>d\<close>, moves the angle to \<open>a' = a + v * 0.02 * d\<close> and
  then sets the direction: backward if \<open>b + maxSweep \<le> a'\<close>, otherwise forward if
  \<open>a' \<le> b - maxSweep\<close>, otherwise as it was. So when a tick flips the direction from backward
  to forward the angle after it is at or below \<open>b - maxSweep\<close>, and when it flips the
  direction from forward to backward the angle after it is at or above \<open>b + maxSweep\<close>.
\<close>

theorem sweep_bounded:
  assumes "0 < MAX_MIDPOINT_ROTATION cfg" and "\<forall>k. 0 \<le> rnd k \<and> rnd k < 1"
    and "i < TOTAL_POINTS cfg"
    and "midPointConnections (points (build cfg rnd) ! i) = Some (m0, m1)"
    and "m = m0 \<or> m = m1"
  shows "let s = (updateMidPoints cfg rnd ^^ n) (build cfg rnd);
             a = currentAngle (mids s ! m);
             b = baseAngle (mids s ! m);
             d = midPointMovementDirection (points s ! i);
             v = midPointMovementSpeed (points s ! i);
             s' = updateMidPoints cfg rnd s;
             a' = currentAngle (mids s' ! m);
             d' = midPointMovementDirection (points s' ! i);
             limit = MAX_MIDPOINT_ROTATION cfg
         in (d = 1 \<or> d = - 1)
          \<and> (d = 1 \<longrightarrow> a < b + limit)
          \<and> (d = - 1 \<longrightarrow> b - limit < a)
          \<and> b - limit - 0.02 < a \<and> a < b + limit + 0.02
          \<and> b = baseAngle (mids (build cfg rnd) ! m)
          \<and> currentAngle (mids (build cfg rnd) ! m) = b
          \<and> midPointMovementDirection (points (build cfg rnd) ! i) = 1
          \<and> 0 \<le> v \<and> v < 1
          \<and> a' = a + v * 0.02 * d
          \<and> (b + limit \<le> a' \<longrightarrow> d' = - 1)
          \<and> (a' < b + limit \<longrightarrow> a' \<le> b - limit \<longrightarrow> d' = 1)
          \<and> (b - limit < a' \<longrightarrow> a' < b + limit \<longrightarrow> d' = d)
          \<and> (d = - 1 \<longrightarrow> d' = 1 \<longrightarrow> a' \<le> b - limit)
          \<and> (d = 1 \<longrightarrow> d' = - 1 \<longrightarrow> b + limit \<le> a')"
proof -
  let ?b = "build cfg rnd" and ?L = "MAX_MIDPOINT_ROTATION cfg"
  let ?s = "(updateMidPoints cfg rnd ^^ n) ?b"
  let ?s' = "updateMidPoints cfg rnd ?s"
  let ?w = "sweep_of cfg ?s i" and ?v = "sweep_of cfg ?b i" and ?w' = "sweep_of cfg ?s' i"
  have ms: "m0 = Suc (2 * prev_index (TOTAL_POINTS cfg) i)" "m1 = 2 * i"
    using assms(4) by (simp_all add: build_point [OF assms(3)])
  have start: "sweep_ok ?L ?v"
    using assms(1,2) by (simp add: sweep_of_build [OF assms(3)] sweep_ok_def)
  note ticks = sweep_ok_ticks [OF shape_build assms(3) assms(1) assms(2) start, of n]
  have ok: "sweep_ok ?L ?w" and b0: "base0 ?w = base0 ?v" and b1: "base1 ?w = base1 ?v"
    using ticks by simp_all
  have d: "direction ?w = 1 \<or> direction ?w = - 1"
    and sp: "0 \<le> speed ?w \<and> speed ?w < 1"
    and lock: "angle0 ?w - base0 ?w = angle1 ?w - base1 ?w"
    using ok by (simp_all add: sweep_ok_def)
  have dw: "direction ?w = midPointMovementDirection (points ?s ! i)"
    "speed ?w = midPointMovementSpeed (points ?s ! i)"
    "direction ?w' = midPointMovementDirection (points ?s' ! i)"
    by (simp_all add: sweep_of_def)
  have d1: "midPointMovementDirection (points ?b ! i) = 1"
    by (simp add: build_point [OF assms(3)])
  have v: "angle0 ?v = base0 ?v" "angle1 ?v = base1 ?v"
    by (simp_all add: sweep_of_build [OF assms(3)])
  have sh: "shape cfg ?s"
    using shape_build by (rule shape_ticks)
  from sweep_of_tick [OF sh assms(3), of rnd] obtain k
    where k: "?w' = sweep_step ?L (rnd k) ?w" by blast
  from assms(5) show ?thesis
  proof
    assume "m = m0"
    then have m: "m = Suc (2 * prev_index (TOTAL_POINTS cfg) i)" using ms by simp
    have sel: "angle0 ?w = currentAngle (mids ?s ! m)" "base0 ?w = baseAngle (mids ?s ! m)"
      "angle0 ?v = currentAngle (mids ?b ! m)" "base0 ?v = baseAngle (mids ?b ! m)"
      "angle0 ?w' = currentAngle (mids ?s' ! m)"
      by (simp_all add: sweep_of_def m)
    note turn = sweep_step_first [OF lock, of ?L "rnd k", folded k, unfolded dw sel]
    then have cons: "(midPointMovementDirection (points ?s ! i) = - 1 \<longrightarrow>
          midPointMovementDirection (points ?s' ! i) = 1 \<longrightarrow>
          currentAngle (mids ?s' ! m) \<le> baseAngle (mids ?s ! m) - ?L)
        \<and> (midPointMovementDirection (points ?s ! i) = 1 \<longrightarrow>
          midPointMovementDirection (points ?s' ! i) = - 1 \<longrightarrow>
          baseAngle (mids ?s ! m) + ?L \<le> currentAngle (mids ?s' ! m))"
      by (intro turn_consequences) simp_all
    show ?thesis
      unfolding Let_def
      using sweep_ok_first [OF ok] d sp b0 v(1) d1 turn cons unfolding dw sel by simp
  next
    assume "m = m1"
    then have m: "m = 2 * i" using ms by simp
    have sel: "angle1 ?w = currentAngle (mids ?s ! m)" "base1 ?w = baseAngle (mids ?s ! m)"
      "angle1 ?v = currentAngle (mids ?b ! m)" "base1 ?v = baseAngle (mids ?b ! m)"
      "angle1 ?w' = currentAngle (mids ?s' ! m)"
      by (simp_all add: sweep_of_def m)
    note turn = sweep_step_second [OF lock, of ?L "rnd k", folded k, unfolded dw sel]
    then have cons: "(midPointMovementDirection (points ?s ! i) = - 1 \<longrightarrow>
          midPointMovementDirection (points ?s' ! i) = 1 \<longrightarrow>
          currentAngle (mids ?s' ! m) \<le> baseAngle (mids ?s ! m) - ?L)
        \<and> (midPointMovementDirection (points ?s ! i) = 1 \<longrightarrow>
          midPointMovementDirection (points ?s' ! i) = - 1 \<longrightarrow>
          baseAngle (mids ?s ! m) + ?L \<le> currentAngle (mids ?s' ! m))"
      by (intro turn_consequences) simp_all
    show ?thesis
      unfolding Let_def
      using sweep_ok_second [OF ok] d sp b1 v(2) d1 turn cons unfolding dw sel by simp
  qed
qed

theorem sweep_bounded_witness:
  "0 < MAX_MIDPOINT_ROTATION source_config
   \<and> (\<forall>k. 0 \<le> steady (1 / 2) k \<and> steady (1 / 2) k < 1)
   \<and> (0::nat) < TOTAL_POINTS source_config
   \<and> midPointConnections (points (build source_config (steady (1 / 2))) ! 0) = Some (9, 0)
   \<and> baseAngle (mids ((updateMidPoints source_config (steady (1 / 2)) ^^ 3)
          (build source_config (steady (1 / 2)))) ! 0)
        - MAX_MIDPOINT_ROTATION source_config - 0.02
       < currentAngle (mids ((updateMidPoints source_config (steady (1 / 2)) ^^ 3)
          (build source_config (steady (1 / 2)))) ! 0)
   \<and> currentAngle (mids ((updateMidPoints source_config (steady (1 / 2)) ^^ 3)
          (build source_config (steady (1 / 2)))) ! 0)
       < baseAngle (mids ((updateMidPoints source_config (steady (1 / 2)) ^^ 3)
          (build source_config (steady (1 / 2)))) ! 0)
        + MAX_MIDPOINT_ROTATION source_config + 0.02
   \<and> (\<forall>k. 0 \<le> steady (pi / 4) k \<and> steady (pi / 4) k < 1)
   \<and> midPointConnections (points (build source_config (steady (pi / 4))) ! 0) = Some (9, 0)
   \<and> midPointMovementDirection (points (quarter_pi_run 101) ! 0) = - 1
   \<and> midPointMovementDirection
        (points (updateMidPoints source_config (steady (pi / 4)) (quarter_pi_run 101)) ! 0) = 1
   \<and> currentAngle (mids (updateMidPoints source_config (steady (pi / 4)) (quarter_pi_run 101)) ! 0)
       \<le> baseAngle (mids (quarter_pi_run 101) ! 0) - MAX_MIDPOINT_ROTATION source_config"
proof -
  have L: "0 < MAX_MIDPOINT_ROTATION source_config"
    by (simp add: source_config_def)
  have r: "\<forall>k. 0 \<le> steady (1 / 2) k \<and> steady (1 / 2) k < 1"
    by (simp add: steady_def)
  have N: "(0::nat) < TOTAL_POINTS source_config" and N5: "TOTAL_POINTS source_config = 5"
    by (simp_all add: source_config_def)
  have p: "midPointConnections (points (build source_config (steady (1 / 2))) ! 0) = Some (9, 0)"
    by (simp add: build_point [OF N] N5 prev_index_def)
  have m: "(0::nat) = 9 \<or> (0::nat) = 0" by simp
  note t = sweep_bounded [OF L r N p m, of 3, unfolded Let_def]
  from t have lo: "baseAngle (mids ((updateMidPoints source_config (steady (1 / 2)) ^^ 3)
          (build source_config (steady (1 / 2)))) ! 0)
        - MAX_MIDPOINT_ROTATION source_config - 0.02
       < currentAngle (mids ((updateMidPoints source_config (steady (1 / 2)) ^^ 3)
          (build source_config (steady (1 / 2)))) ! 0)"
    by (elim conjE)
  from t have hi: "currentAngle (mids ((updateMidPoints source_config (steady (1 / 2)) ^^ 3)
          (build source_config (steady (1 / 2)))) ! 0)
       < baseAngle (mids ((updateMidPoints source_config (steady (1 / 2)) ^^ 3)
          (build source_config (steady (1 / 2)))) ! 0)
        + MAX_MIDPOINT_ROTATION source_config + 0.02"
    by (elim conjE)
  have r4: "\<forall>k. 0 \<le> steady (pi / 4) k \<and> steady (pi / 4) k < 1"
    using pi_less_4 by (simp add: steady_def)
  have p4: "midPointConnections (points (build source_config (steady (pi / 4))) ! 0) = Some (9, 0)"
    by (simp add: build_point [OF N] N5 prev_index_def)
  have nxt: "updateMidPoints source_config (steady (pi / 4)) (quarter_pi_run 101)
      = quarter_pi_run 102"
  proof -
    have "quarter_pi_run (Suc 101)
        = updateMidPoints source_config (steady (pi / 4)) (quarter_pi_run 101)"
      by (simp only: quarter_pi_run_def funpow.simps o_apply)
    then show ?thesis
      by simp
  qed
  have sel: "\<And>n. direction (sweep_of source_config (quarter_pi_run n) 0)
        = midPointMovementDirection (points (quarter_pi_run n) ! 0)"
    by (simp add: sweep_of_def)
  have s101: "sweep_of source_config (quarter_pi_run 101) 0 = down_sweep 67"
    by (simp only: sweep_of_quarter_pi_run steps_101)
  have s102: "sweep_of source_config (quarter_pi_run 102) 0 = (down_sweep 68)\<lparr>direction := 1\<rparr>"
    by (simp only: sweep_of_quarter_pi_run steps_102)
  have d101: "midPointMovementDirection (points (quarter_pi_run 101) ! 0) = - 1"
    using arg_cong [OF s101, of direction] unfolding sel by (simp add: down_sweep_def)
  have d102: "midPointMovementDirection
        (points (updateMidPoints source_config (steady (pi / 4)) (quarter_pi_run 101)) ! 0) = 1"
    using arg_cong [OF s102, of direction] unfolding sel nxt by simp
  note u = sweep_bounded [OF L r4 N p4 m, of 101, unfolded Let_def, folded quarter_pi_run_def]
  from u have "midPointMovementDirection (points (quarter_pi_run 101) ! 0) = - 1 \<longrightarrow>
      midPointMovementDirection
        (points (updateMidPoints source_config (steady (pi / 4)) (quarter_pi_run 101)) ! 0) = 1 \<longrightarrow>
      currentAngle (mids (updateMidPoints source_config (steady (pi / 4)) (quarter_pi_run 101)) ! 0)
       \<le> baseAngle (mids (quarter_pi_run 101) ! 0) - MAX_MIDPOINT_ROTATION source_config"
    by (elim conjE)
  with d101 d102 have flip:
    "currentAngle (mids (updateMidPoints source_config (steady (pi / 4)) (quarter_pi_run 101)) ! 0)
       \<le> baseAngle (mids (quarter_pi_run 101) ! 0) - MAX_MIDPOINT_ROTATION source_config"
    by blast
  show ?thesis
    by (intro conjI L r N p lo hi r4 p4 d101 d102 flip)
qed

text \<open>
  With the random number \<open>pi / 4\<close> every tick moves the angles by \<open>pi / 200\<close>. Anchor 0 of
  the script's own shape is paired with the control points 9 and 0 and starts forward at
  the base angles. After 101 ticks its direction is backward, after 102 ticks it has
  flipped back to forward, and the current angle of control point 0 is then below its base
  angle minus the maximum sweep.
\<close>

theorem overshoot_after_flip:
  "0 \<le> steady (pi / 4) 0 \<and> steady (pi / 4) 0 < 1
   \<and> midPointConnections (points (quarter_pi_run 0) ! 0) = Some (9, 0)
   \<and> midPointMovementDirection (points (quarter_pi_run 0) ! 0) = 1
   \<and> currentAngle (mids (quarter_pi_run 0) ! 0) = baseAngle (mids (quarter_pi_run 0) ! 0)
   \<and> midPointMovementDirection (points (quarter_pi_run 101) ! 0) = - 1
   \<and> midPointMovementDirection (points (quarter_pi_run 102) ! 0) = 1
   \<and> currentAngle (mids (quarter_pi_run 102) ! 0)
       < baseAngle (mids (quarter_pi_run 102) ! 0) - MAX_MIDPOINT_ROTATION source_config"
proof -
  have N: "(0::nat) < TOTAL_POINTS source_config" and N5: "TOTAL_POINTS source_config = 5"
    by (simp_all add: source_config_def)
  have L: "MAX_MIDPOINT_ROTATION source_config = pi / 6"
    by (simp add: source_config_def)
  have sel: "\<And>n. angle1 (sweep_of source_config (quarter_pi_run n) 0)
        = currentAngle (mids (quarter_pi_run n) ! 0)"
    "\<And>n. base1 (sweep_of source_config (quarter_pi_run n) 0)
        = baseAngle (mids (quarter_pi_run n) ! 0)"
    "\<And>n. direction (sweep_of source_config (quarter_pi_run n) 0)
        = midPointMovementDirection (points (quarter_pi_run n) ! 0)"
    by (simp_all add: sweep_of_def)
  have r: "0 \<le> steady (pi / 4) 0 \<and> steady (pi / 4) 0 < 1"
    using pi_less_4 by (simp add: steady_def)
  have pairing: "midPointConnections (points (quarter_pi_run 0) ! 0) = Some (9, 0)"
    by (simp add: quarter_pi_run_def build_point [OF N] N5 prev_index_def)
  have s0: "sweep_of source_config (quarter_pi_run 0) 0 = up_sweep 0"
    by (simp add: sweep_of_quarter_pi_run)
  have s101: "sweep_of source_config (quarter_pi_run 101) 0 = down_sweep 67"
    by (simp only: sweep_of_quarter_pi_run steps_101)
  have s102: "sweep_of source_config (quarter_pi_run 102) 0 = (down_sweep 68)\<lparr>direction := 1\<rparr>"
    by (simp only: sweep_of_quarter_pi_run steps_102)
  have d0: "midPointMovementDirection (points (quarter_pi_run 0) ! 0) = 1"
    and a0: "currentAngle (mids (quarter_pi_run 0) ! 0) = baseAngle (mids (quarter_pi_run 0) ! 0)"
    using arg_cong [OF s0, of direction] arg_cong [OF s0, of angle1] arg_cong [OF s0, of base1]
    unfolding sel by (simp_all add: up_sweep_def)
  have d101: "midPointMovementDirection (points (quarter_pi_run 101) ! 0) = - 1"
    using arg_cong [OF s101, of direction] unfolding sel by (simp add: down_sweep_def)
  have d102: "midPointMovementDirection (points (quarter_pi_run 102) ! 0) = 1"
    using arg_cong [OF s102, of direction] unfolding sel by simp
  have a102: "currentAngle (mids (quarter_pi_run 102) ! 0) = - 34 * (pi / 200)"
    and b102: "baseAngle (mids (quarter_pi_run 102) ! 0) = 0"
    using arg_cong [OF s102, of angle1] arg_cong [OF s102, of base1]
    unfolding sel by (simp_all add: down_sweep_def)
  have "0 < pi" by simp
  then have below: "- 34 * (pi / 200) < 0 - pi / 6"
    by linarith
  have last: "currentAngle (mids (quarter_pi_run 102) ! 0)
       < baseAngle (mids (quarter_pi_run 102) ! 0) - MAX_MIDPOINT_ROTATION source_config"
    unfolding a102 b102 L by (rule below)
  show ?thesis
    by (intro conjI conjunct1 [OF r] conjunct2 [OF r] pairing d0 a0 d101 d102 last)
qed

end
